theory Spec2Isabelle
  imports Complex_Main
begin

section \<open>Data model\<close>

text \<open>
  The script integracion_limpieza_datos.py works on pandas DataFrames. A cell of a frame
  read from a CSV file is a number, a text, or the missing marker (NaN, None and NaT are
  all "null" for \<open>isnull\<close>); after \<open>pd.to_datetime\<close> a cell may also hold a timestamp.
  Numbers are modelled as exact rationals: rounding of float64 is outside the model.
\<close>

record timestamp =
  year :: nat
  month :: nat
  day :: nat
  tod :: nat  \<comment> \<open>time of day, in nanoseconds since midnight\<close>

datatype val = Null | Num rat | Str string | Ts timestamp

type_synonym row = "string \<Rightarrow> val"

text \<open>
  A frame is its ordered column names and its ordered rows; a row gives the cell of every
  column of the frame (what it gives outside the frame's columns is irrelevant).
\<close>

record table =
  columns :: "string list"
  rows :: "row list"

datatype exn = FileNotFoundError | OtherReadError | KeyError | ValueError | MergeError | TypeError

definition isnull :: "val \<Rightarrow> bool" where
  "isnull v = (v = Null)"

definition column :: "string \<Rightarrow> table \<Rightarrow> val list" where
  "column c t = map (\<lambda>r. r c) (rows t)"

section \<open>Step 2: the inner merge on cliente_id\<close>

text \<open>
  Line 25 is one library call, \<open>pd.merge(ventas_df, clientes_df, on='cliente_id',
  how='inner')\<close>, inside \<open>try ... except Exception: exit()\<close>. The body of the call is not
  code of the repository, so the join is modelled from section 4.1 and section 3 of the
  specification; the order of rows and columns, the suffixes of shared column names and the
  further failures are those of the library call that the source makes.
\<close>

text \<open>
  Modelled from the spec: the naming of the merged columns is missing from the source (it is
  inside \<open>pd.merge\<close>). A joined row is "the concatenation of attributes from one Sales row
  and its matched Customer row"; the key column is kept once; a name other than the key that
  both frames have is told apart by the default suffixes of the call, \<open>_x\<close> for the sale's
  attribute and \<open>_y\<close> for the customer's.
\<close>

definition lname :: "string \<Rightarrow> string list \<Rightarrow> string \<Rightarrow> string" where
  "lname k rc n = (if n \<noteq> k \<and> n \<in> set rc then n @ ''_x'' else n)"

text \<open>
  Modelled from the spec: the customer's side of the naming above (inside \<open>pd.merge\<close>).
\<close>

definition rname :: "string list \<Rightarrow> string \<Rightarrow> string" where
  "rname lc n = (if n \<in> set lc then n @ ''_y'' else n)"

text \<open>
  Modelled from the spec: the column order of the joined table (inside \<open>pd.merge\<close>): the
  sale's attributes, then the customer's attributes without the key.
\<close>

definition merged_columns :: "string \<Rightarrow> string list \<Rightarrow> string list \<Rightarrow> string list" where
  "merged_columns k lc rc = map (lname k rc) lc @ map (rname lc) (filter (\<lambda>n. n \<noteq> k) rc)"

text \<open>
  Modelled from the spec: the construction of a joined row is missing from the source (it is
  inside \<open>pd.merge\<close>). The joined row of a sale \<open>s\<close> and a customer \<open>c\<close> has the cells of
  \<open>s\<close> under the sale's column names and the cells of \<open>c\<close>, the key apart, under the
  customer's column names. It is used only where the merged names are distinct (see
  \<open>merge_df\<close>), so that no cell hides another.
\<close>

definition join_row :: "string \<Rightarrow> string list \<Rightarrow> string list \<Rightarrow> row \<Rightarrow> row \<Rightarrow> row" where
  "join_row k lc rc s c =
     (\<lambda>m. case map_of (map (\<lambda>n. (lname k rc n, s n)) lc @
                       map (\<lambda>n. (rname lc n, c n)) (filter (\<lambda>n. n \<noteq> k) rc)) m of
            Some v \<Rightarrow> v
          | None \<Rightarrow> Null)"

text \<open>
  Modelled from the spec: the pairing of the rows is missing from the source (it is inside
  \<open>pd.merge\<close>). "Exactly one row per (sale, customer) pair where the customer identifier
  values are equal"; "if a customer identifier matches multiple customer rows, one joined
  row is produced per match". The joined rows come in the order of the sales and, for one
  sale, in the order of the customers; two missing keys count as equal, as in the library.
\<close>

definition merge_rows :: "string \<Rightarrow> string list \<Rightarrow> string list \<Rightarrow> row list \<Rightarrow> row list \<Rightarrow> row list" where
  "merge_rows k lc rc ls rs =
     concat (map (\<lambda>s. map (join_row k lc rc s) (filter (\<lambda>c. c k = s k) rs)) ls)"

text \<open>
  Modelled from the spec: the kinds of key column the library tells apart are missing from
  the source. A column read from a CSV file holds numbers or texts (and missing cells); the
  call refuses to join a key column of texts with a key column of numbers when both frames
  have rows.
\<close>

definition has_text :: "val list \<Rightarrow> bool" where
  "has_text vs = (\<exists>v \<in> set vs. case v of Str s \<Rightarrow> True | _ \<Rightarrow> False)"

text \<open>
  Modelled from the spec: the refusal itself (inside \<open>pd.merge\<close>); a frame without rows is
  joined with any frame.
\<close>

definition keys_clash :: "val list \<Rightarrow> val list \<Rightarrow> bool" where
  "keys_clash lk rk = (lk \<noteq> [] \<and> rk \<noteq> [] \<and> has_text lk \<noteq> has_text rk)"

text \<open>
  Modelled from the spec: the body of \<open>pd.merge\<close> is missing from the source. "Fails with a
  JoinError if the join key column is absent from either input table" (KeyError in the
  library); the call of the source fails as well on key columns of clashing kinds
  (ValueError) and when the suffixes give one name to two merged columns (MergeError; a
  frame with a repeated column name is outside the data model, where a row maps a column
  name to one cell). Line 28 catches all three. Otherwise the joined table has the merged
  columns and one joined row per matching pair.
\<close>

definition merge_df :: "string \<Rightarrow> table \<Rightarrow> table \<Rightarrow> exn + table" where
  "merge_df k l r =
     (if k \<notin> set (columns l) \<or> k \<notin> set (columns r) then Inl KeyError
      else if keys_clash (column k l) (column k r) then Inl ValueError
      else if \<not> distinct (merged_columns k (columns l) (columns r)) then Inl MergeError
      else Inr \<lparr>columns = merged_columns k (columns l) (columns r),
                rows = merge_rows k (columns l) (columns r) (rows l) (rows r)\<rparr>)"

section \<open>Step 4: repairing importe and nombre_cliente\<close>

text \<open>
  \<open>merged_df['importe'] < 0\<close> compares every non-null cell with 0; on a text cell the
  comparison raises TypeError, which the script does not catch. A null cell compares False.
\<close>

definition is_number_or_null :: "val \<Rightarrow> bool" where
  "is_number_or_null v = (case v of Null \<Rightarrow> True | Num x \<Rightarrow> True | _ \<Rightarrow> False)"

definition lt_zero :: "val \<Rightarrow> bool" where
  "lt_zero v = (case v of Num x \<Rightarrow> x < 0 | _ \<Rightarrow> False)"

fun numbers :: "val list \<Rightarrow> rat list" where
  "numbers [] = []"
| "numbers (Num x # vs) = x # numbers vs"
| "numbers (v # vs) = numbers vs"

text \<open>\<open>Series.mean()\<close> skips the null cells; the mean of no cell at all is NaN.\<close>

definition mean :: "val list \<Rightarrow> val" where
  "mean vs = (let xs = numbers vs in
              if xs = [] then Null else Num (sum_list xs / of_nat (length xs)))"

definition fillna :: "string \<Rightarrow> val \<Rightarrow> table \<Rightarrow> table" where
  "fillna c v t = t\<lparr>rows := map (\<lambda>r. if isnull (r c) then r(c := v) else r) (rows t)\<rparr>"

definition zero_negatives :: "table \<Rightarrow> table" where
  "zero_negatives t =
     t\<lparr>rows := map (\<lambda>r. if lt_zero (r ''importe'') then r(''importe'' := Num 0) else r) (rows t)\<rparr>"

definition importe_stage :: "table \<Rightarrow> exn + table" where
  "importe_stage t =
     (if ''importe'' \<notin> set (columns t) then Inr t
      else if \<exists>v \<in> set (column ''importe'' t). \<not> is_number_or_null v then Inl TypeError
      else
        let initial_negative_importes = length (filter lt_zero (column ''importe'' t));
            t1 = (if initial_negative_importes > 0 then zero_negatives t else t);
            t2 = (if \<exists>v \<in> set (column ''importe'' t1). isnull v
                  then fillna ''importe'' (mean (column ''importe'' t1)) t1
                  else t1)
        in Inr t2)"

definition nombre_stage :: "table \<Rightarrow> table" where
  "nombre_stage t =
     (if ''nombre_cliente'' \<in> set (columns t) \<and> (\<exists>v \<in> set (column ''nombre_cliente'' t). isnull v)
      then fillna ''nombre_cliente'' (Str ''Desconocido'') t
      else t)"

definition quality_repair :: "table \<Rightarrow> exn + table" where
  "quality_repair t = (case importe_stage t of Inl e \<Rightarrow> Inl e | Inr t1 \<Rightarrow> Inr (nombre_stage t1))"

section \<open>Step 5: normalising fecha_venta\<close>

text \<open>
  Timestamps are compared in the order of (year, month, day, time of day). A comparison
  with a cell that is not a timestamp (NaT) is False.
\<close>

definition ts_lt :: "timestamp \<Rightarrow> timestamp \<Rightarrow> bool" where
  "ts_lt a b =
     (year a < year b \<or> (year a = year b \<and>
       (month a < month b \<or> (month a = month b \<and>
         (day a < day b \<or> (day a = day b \<and> tod a < tod b))))))"

definition ts_le :: "timestamp \<Rightarrow> timestamp \<Rightarrow> bool" where
  "ts_le a b =
     (year a < year b \<or> (year a = year b \<and>
       (month a < month b \<or> (month a = month b \<and>
         (day a < day b \<or> (day a = day b \<and> tod a \<le> tod b))))))"

definition cell_lt :: "val \<Rightarrow> timestamp \<Rightarrow> bool" where
  "cell_lt v b = (case v of Ts a \<Rightarrow> ts_lt a b | _ \<Rightarrow> False)"

definition cell_gt :: "val \<Rightarrow> timestamp \<Rightarrow> bool" where
  "cell_gt v b = (case v of Ts a \<Rightarrow> ts_lt b a | _ \<Rightarrow> False)"

definition cell_ge :: "val \<Rightarrow> timestamp \<Rightarrow> bool" where
  "cell_ge v b = (case v of Ts a \<Rightarrow> ts_le b a | _ \<Rightarrow> False)"

definition cell_le :: "val \<Rightarrow> timestamp \<Rightarrow> bool" where
  "cell_le v b = (case v of Ts a \<Rightarrow> ts_le a b | _ \<Rightarrow> False)"

text \<open>
  \<open>pd.to_datetime(..., errors='coerce')\<close>: the date inference of pandas is a parameter
  \<open>P\<close> of the model, which gives the timestamp read from a cell or None; a null cell and a
  cell that cannot be read become NaT.
\<close>

definition to_datetime :: "(val \<Rightarrow> timestamp option) \<Rightarrow> val \<Rightarrow> val" where
  "to_datetime P v = (if v = Null then Null else case P v of None \<Rightarrow> Null | Some ts \<Rightarrow> Ts ts)"

definition digit :: "nat \<Rightarrow> char" where
  "digit n = char_of (48 + n mod 10)"

definition show2 :: "nat \<Rightarrow> string" where
  "show2 n = [digit (n div 10), digit n]"

definition show4 :: "nat \<Rightarrow> string" where
  "show4 n = [digit (n div 1000), digit (n div 100), digit (n div 10), digit n]"

definition strftime :: "timestamp \<Rightarrow> string" where
  "strftime ts = show4 (year ts) @ ''-'' @ show2 (month ts) @ ''-'' @ show2 (day ts)"

definition strftime_cell :: "val \<Rightarrow> val" where
  "strftime_cell v = (case v of Ts ts \<Rightarrow> Str (strftime ts) | _ \<Rightarrow> Null)"

definition min_date :: timestamp where
  "min_date = \<lparr>year = 2000, month = 1, day = 1, tod = 0\<rparr>"

definition set_rows :: "row list \<Rightarrow> table \<Rightarrow> table" where
  "set_rows rs t = t\<lparr>rows := rs\<rparr>"

definition fecha_stage :: "(val \<Rightarrow> timestamp option) \<Rightarrow> timestamp \<Rightarrow> table \<Rightarrow> table" where
  "fecha_stage P max_date t =
     (if ''fecha_venta'' \<notin> set (columns t) then t
      else
        let t1 = set_rows (map (\<lambda>r. r(''fecha_venta'' := to_datetime P (r ''fecha_venta''))) (rows t)) t;
            t2 = (if \<exists>v \<in> set (column ''fecha_venta'' t1). isnull v
                  then set_rows (filter (\<lambda>r. \<not> isnull (r ''fecha_venta'')) (rows t1)) t1
                  else t1);
            out_of_range_dates_count =
              length (filter (\<lambda>r. cell_lt (r ''fecha_venta'') min_date
                                \<or> cell_gt (r ''fecha_venta'') max_date) (rows t2));
            t3 = (if out_of_range_dates_count > 0
                  then set_rows (filter (\<lambda>r. cell_ge (r ''fecha_venta'') min_date
                                           \<and> cell_le (r ''fecha_venta'') max_date) (rows t2)) t2
                  else t2)
        in set_rows (map (\<lambda>r. r(''fecha_venta'' := strftime_cell (r ''fecha_venta''))) (rows t3)) t3)"

section \<open>The whole script\<close>

datatype read_result = Loaded table | Missing | Unreadable

datatype outcome =
    Exited_load             \<comment> \<open>message of line 10, then \<open>exit()\<close>\<close>
  | Exited_merge            \<comment> \<open>message of line 29, then \<open>exit()\<close>\<close>
  | Crashed exn             \<comment> \<open>an exception nothing catches\<close>
  | Write_failed            \<comment> \<open>message of line 124\<close>
  | Written table           \<comment> \<open>dataset_integrado.csv holds this frame\<close>

record env =
  ventas_csv :: read_result
  clientes_csv :: read_result
  today :: timestamp
  write_ok :: bool

definition clean :: "(val \<Rightarrow> timestamp option) \<Rightarrow> timestamp \<Rightarrow> table \<Rightarrow> exn + table" where
  "clean P now t =
     (case quality_repair t of Inl e \<Rightarrow> Inl e | Inr t1 \<Rightarrow> Inr (fecha_stage P now t1))"

definition run :: "(val \<Rightarrow> timestamp option) \<Rightarrow> env \<Rightarrow> outcome" where
  "run P e =
     (case ventas_csv e of
        Missing \<Rightarrow> Exited_load
      | Unreadable \<Rightarrow> Crashed OtherReadError
      | Loaded ventas_df \<Rightarrow>
         (case clientes_csv e of
            Missing \<Rightarrow> Exited_load
          | Unreadable \<Rightarrow> Crashed OtherReadError
          | Loaded clientes_df \<Rightarrow>
             (case merge_df ''cliente_id'' ventas_df clientes_df of
                Inl x \<Rightarrow> Exited_merge
              | Inr merged_df \<Rightarrow>
                 (case clean P (today e) merged_df of
                    Inl x \<Rightarrow> Crashed x
                  | Inr cleaned \<Rightarrow> if write_ok e then Written cleaned else Write_failed))))"

section \<open>Reading and writing dates in ISO form\<close>

text \<open>
  A concrete reader of the two ISO forms \<open>YYYY-MM-DD\<close> and \<open>YYYY-MM-DD HH:MM:SS\<close>, which
  pandas reads as the timestamp they denote. It is one admissible choice of the parameter
  \<open>P\<close>; \<open>valid_ts\<close> says that a timestamp is a calendar date with a four-digit year.
\<close>
definition digit_val :: "char \<Rightarrow> nat option" where
  "digit_val c = (let n = (of_char c :: nat) in if 48 \<le> n \<and> n \<le> 57 then Some (n - 48) else None)"

fun digits_val :: "string \<Rightarrow> nat option" where
  "digits_val [] = Some 0"
| "digits_val (c # cs) =
     (case digit_val c of None \<Rightarrow> None
      | Some d \<Rightarrow> (case digits_val cs of None \<Rightarrow> None | Some n \<Rightarrow> Some (d * 10 ^ length cs + n)))"

definition leap :: "nat \<Rightarrow> bool" where
  "leap y = (y mod 4 = 0 \<and> (y mod 100 \<noteq> 0 \<or> y mod 400 = 0))"

definition days_in_month :: "nat \<Rightarrow> nat \<Rightarrow> nat" where
  "days_in_month y m =
     (if m = 2 then (if leap y then 29 else 28)
      else if m = 4 \<or> m = 6 \<or> m = 9 \<or> m = 11 then 30 else 31)"

definition valid_ts :: "timestamp \<Rightarrow> bool" where
  "valid_ts ts = (year ts \<le> 9999 \<and> 1 \<le> month ts \<and> month ts \<le> 12 \<and> 1 \<le> day ts
                  \<and> day ts \<le> days_in_month (year ts) (month ts) \<and> tod ts < 86400000000000)"

fun parse_date :: "string \<Rightarrow> timestamp option" where
  "parse_date [y1, y2, y3, y4, s1, m1, m2, s2, d1, d2] =
     (if s1 = CHR ''-'' \<and> s2 = CHR ''-'' then
        (case (digits_val [y1, y2, y3, y4], digits_val [m1, m2], digits_val [d1, d2]) of
           (Some y, Some m, Some d) \<Rightarrow>
             (let ts = \<lparr>year = y, month = m, day = d, tod = 0\<rparr>
              in if valid_ts ts then Some ts else None)
         | _ \<Rightarrow> None)
      else None)"
| "parse_date _ = None"

fun parse_time :: "string \<Rightarrow> nat option" where
  "parse_time [h1, h2, s1, m1, m2, s2, c1, c2] =
     (if s1 = CHR '':'' \<and> s2 = CHR '':'' then
        (case (digits_val [h1, h2], digits_val [m1, m2], digits_val [c1, c2]) of
           (Some h, Some m, Some s) \<Rightarrow>
             (if h < 24 \<and> m < 60 \<and> s < 60 then Some (((h * 60 + m) * 60 + s) * 1000000000) else None)
         | _ \<Rightarrow> None)
      else None)"
| "parse_time _ = None"

definition parse_iso :: "string \<Rightarrow> timestamp option" where
  "parse_iso s =
     (if length s = 10 then parse_date s
      else if length s = 19 \<and> s ! 10 = CHR '' '' then
        (case (parse_date (take 10 s), parse_time (drop 11 s)) of
           (Some d, Some t) \<Rightarrow> Some (d\<lparr>tod := t\<rparr>)
         | _ \<Rightarrow> None)
      else None)"

definition iso_parser :: "val \<Rightarrow> timestamp option" where
  "iso_parser v = (case v of Str s \<Rightarrow> parse_iso s | _ \<Rightarrow> None)"

section \<open>Auxiliary notions for the proofs\<close>

definition repair_importe :: "val \<Rightarrow> val \<Rightarrow> val" where
  "repair_importe m v = (if lt_zero v then Num 0 else if v = Null then m else v)"

definition corrected :: "val list \<Rightarrow> val list" where
  "corrected vs = map (\<lambda>v. if lt_zero v then Num 0 else v) vs"

definition in_range :: "timestamp \<Rightarrow> val \<Rightarrow> bool" where
  "in_range max_date v = (cell_ge v min_date \<and> cell_le v max_date)"

definition output_column :: "string \<Rightarrow> outcome \<Rightarrow> val list option" where
  "output_column c out = (case out of Written t \<Rightarrow> Some (column c t) | _ \<Rightarrow> None)"

section \<open>Concrete frames used as test inputs\<close>

definition mk_row :: "(string \<times> val) list \<Rightarrow> row" where
  "mk_row al = (\<lambda>c. case map_of al c of Some v \<Rightarrow> v | None \<Rightarrow> Null)"

definition ventas_ex :: table where
  "ventas_ex = \<lparr>columns = [''cliente_id'', ''importe'', ''fecha_venta''],
                rows = [mk_row [(''cliente_id'', Num 1), (''importe'', Num (-5)), (''fecha_venta'', Str ''2022-13-40'')],
                        mk_row [(''cliente_id'', Num 2), (''importe'', Null), (''fecha_venta'', Str ''2021-05-01'')],
                        mk_row [(''cliente_id'', Num 3), (''importe'', Num 7), (''fecha_venta'', Str ''2020-02-29'')]]\<rparr>"

definition clientes_ex :: table where
  "clientes_ex = \<lparr>columns = [''cliente_id'', ''nombre_cliente''],
                  rows = [mk_row [(''cliente_id'', Num 1), (''nombre_cliente'', Null)],
                          mk_row [(''cliente_id'', Num 2), (''nombre_cliente'', Str ''Ana'')],
                          mk_row [(''cliente_id'', Num 2), (''nombre_cliente'', Str ''Ana Maria'')],
                          mk_row [(''cliente_id'', Num 4), (''nombre_cliente'', Str ''Luis'')]]\<rparr>"

definition ventas_sfx :: table where
  "ventas_sfx = \<lparr>columns = [''cliente_id'', ''importe'', ''ciudad''],
                 rows = [mk_row [(''cliente_id'', Num 1), (''importe'', Num 10), (''ciudad'', Str ''Lima'')],
                         mk_row [(''cliente_id'', Num 2), (''importe'', Num 20), (''ciudad'', Str ''Quito'')],
                         mk_row [(''cliente_id'', Num 3), (''importe'', Num 30), (''ciudad'', Str ''Cali'')]]\<rparr>"

definition clientes_sfx :: table where
  "clientes_sfx = \<lparr>columns = [''cliente_id'', ''nombre_cliente'', ''ciudad''],
                   rows = [mk_row [(''cliente_id'', Num 2), (''nombre_cliente'', Str ''Ana''), (''ciudad'', Str ''Cusco'')],
                           mk_row [(''cliente_id'', Num 2), (''nombre_cliente'', Str ''Ana Maria''), (''ciudad'', Str ''Loja'')],
                           mk_row [(''cliente_id'', Num 4), (''nombre_cliente'', Str ''Luis''), (''ciudad'', Str ''Pasto'')]]\<rparr>"

definition merged_sfx :: table where
  "merged_sfx = \<lparr>columns = merged_columns ''cliente_id'' (columns ventas_sfx) (columns clientes_sfx),
                 rows = merge_rows ''cliente_id'' (columns ventas_sfx) (columns clientes_sfx)
                          (rows ventas_sfx) (rows clientes_sfx)\<rparr>"

definition now_ex :: timestamp where
  "now_ex = \<lparr>year = 2026, month = 11, day = 4, tod = 36000000000000\<rparr>"

definition merged_ex :: table where
  "merged_ex = \<lparr>columns = merged_columns ''cliente_id'' (columns ventas_ex) (columns clientes_ex),
                rows = merge_rows ''cliente_id'' (columns ventas_ex) (columns clientes_ex)
                         (rows ventas_ex) (rows clientes_ex)\<rparr>"

definition env_ex :: env where
  "env_ex = \<lparr>ventas_csv = Loaded ventas_ex, clientes_csv = Loaded clientes_ex,
             today = now_ex, write_ok = True\<rparr>"

definition ventas_null :: table where
  "ventas_null = \<lparr>columns = [''cliente_id'', ''importe'', ''fecha_venta''],
                  rows = [mk_row [(''cliente_id'', Num 2), (''importe'', Null), (''fecha_venta'', Str ''2021-05-01'')]]\<rparr>"

definition env_null :: env where
  "env_null = \<lparr>ventas_csv = Loaded ventas_null, clientes_csv = Loaded clientes_ex,
               today = now_ex, write_ok = True\<rparr>"




definition merged_null :: table where
  "merged_null = \<lparr>columns = merged_columns ''cliente_id'' (columns ventas_null) (columns clientes_ex),
                  rows = merge_rows ''cliente_id'' (columns ventas_null) (columns clientes_ex)
                           (rows ventas_null) (rows clientes_ex)\<rparr>"


definition ventas_bare :: table where
  "ventas_bare = \<lparr>columns = [''cliente_id'', ''producto''],
                  rows = [mk_row [(''cliente_id'', Num 1), (''producto'', Str ''mesa'')],
                          mk_row [(''cliente_id'', Num 2), (''producto'', Str ''silla'')]]\<rparr>"

definition clientes_bare :: table where
  "clientes_bare = \<lparr>columns = [''cliente_id'', ''ciudad''],
                    rows = [mk_row [(''cliente_id'', Num 2), (''ciudad'', Str ''Quito'')]]\<rparr>"

definition merged_bare :: table where
  "merged_bare = \<lparr>columns = merged_columns ''cliente_id'' (columns ventas_bare) (columns clientes_bare),
                  rows = merge_rows ''cliente_id'' (columns ventas_bare) (columns clientes_bare)
                           (rows ventas_bare) (rows clientes_bare)\<rparr>"

definition env_bare :: env where
  "env_bare = \<lparr>ventas_csv = Loaded ventas_bare, clientes_csv = Loaded clientes_bare,
               today = now_ex, write_ok = True\<rparr>"

definition dates_ex :: table where
  "dates_ex = \<lparr>columns = [''fecha_venta''],
               rows = [mk_row [(''fecha_venta'', Str ''2022-13-40'')],
                       mk_row [(''fecha_venta'', Str ''2021-05-01'')],
                       mk_row [(''fecha_venta'', Null)],
                       mk_row [(''fecha_venta'', Str ''2026-11-04 23:00:00'')]]\<rparr>"

definition canon_ex :: table where
  "canon_ex = \<lparr>columns = [''fecha_venta''],
               rows = [mk_row [(''fecha_venta'', Str ''2021-05-01'')],
                       mk_row [(''fecha_venta'', Str ''2026-11-04'')]]\<rparr>"

section \<open>The merge pairs every sale with every customer of the same key\<close>

definition match_pairs :: "string \<Rightarrow> row list \<Rightarrow> row list \<Rightarrow> (nat \<times> nat) list" where
  "match_pairs k ls rs =
     concat (map (\<lambda>i. map (Pair i) (filter (\<lambda>j. (rs ! j) k = (ls ! i) k) [0..<length rs])) [0..<length ls])"

section \<open>Properties of the stages\<close>

lemma filter_by_index: "filter Q ys = map ((!) ys) (filter (\<lambda>j. Q (ys ! j)) [0..<length ys])"
proof -
  have "filter Q (map ((!) ys) [0..<length ys]) = map ((!) ys) (filter (Q \<circ> (!) ys) [0..<length ys])"
    by (rule filter_map)
  then show ?thesis by (simp add: map_nth comp_def)
qed

lemma merge_rows_pairs:
  "merge_rows k lc rc ls rs =
     map (\<lambda>(i, j). join_row k lc rc (ls ! i) (rs ! j)) (match_pairs k ls rs)"
proof -
  have "map (\<lambda>s. map (join_row k lc rc s) (filter (\<lambda>c. c k = s k) rs)) ls
      = map (\<lambda>i. map (join_row k lc rc (ls ! i)) (filter (\<lambda>c. c k = (ls ! i) k) rs)) [0..<length ls]"
    by (rule nth_equalityI) simp_all
  also have "\<dots> = map (\<lambda>i. map (\<lambda>(i, j). join_row k lc rc (ls ! i) (rs ! j))
                      (map (Pair i) (filter (\<lambda>j. (rs ! j) k = (ls ! i) k) [0..<length rs]))) [0..<length ls]"
    by (subst filter_by_index) (simp add: comp_def)
  finally show ?thesis
    by (simp add: merge_rows_def match_pairs_def map_concat comp_def)
qed

lemma set_match_pairs:
  "set (match_pairs k ls rs) = {(i, j). i < length ls \<and> j < length rs \<and> (ls ! i) k = (rs ! j) k}"
  by (auto simp: match_pairs_def)

lemma distinct_tagged_concat:
  "distinct xs \<Longrightarrow> (\<And>i. distinct (f i)) \<Longrightarrow> distinct (concat (map (\<lambda>i. map (Pair i) (f i)) xs))"
  by (induction xs) (auto simp: distinct_map inj_on_def)

lemma distinct_match_pairs: "distinct (match_pairs k ls rs)"
  unfolding match_pairs_def by (rule distinct_tagged_concat) simp_all

lemma merged_columns_fst:
  "map fst (map (\<lambda>n. (lname k rc n, s n)) lc @ map (\<lambda>n. (rname lc n, c n)) (filter (\<lambda>n. n \<noteq> k) rc))
     = merged_columns k lc rc"
  by (simp add: merged_columns_def comp_def)

lemma join_row_left:
  assumes "distinct (merged_columns k lc rc)" and "n \<in> set lc"
  shows "join_row k lc rc s c (lname k rc n) = s n"
proof -
  let ?al = "map (\<lambda>n. (lname k rc n, s n)) lc @ map (\<lambda>n. (rname lc n, c n)) (filter (\<lambda>n. n \<noteq> k) rc)"
  have "distinct (map fst ?al)" using assms(1) by (simp only: merged_columns_fst)
  moreover have "(lname k rc n, s n) \<in> set ?al" using assms(2) by simp
  ultimately have "map_of ?al (lname k rc n) = Some (s n)" by (rule map_of_is_SomeI)
  then show ?thesis by (simp add: join_row_def)
qed

lemma join_row_right:
  assumes "distinct (merged_columns k lc rc)" and "n \<in> set rc" and "n \<noteq> k"
  shows "join_row k lc rc s c (rname lc n) = c n"
proof -
  let ?al = "map (\<lambda>n. (lname k rc n, s n)) lc @ map (\<lambda>n. (rname lc n, c n)) (filter (\<lambda>n. n \<noteq> k) rc)"
  have "distinct (map fst ?al)" using assms(1) by (simp only: merged_columns_fst)
  moreover have "(rname lc n, c n) \<in> set ?al" using assms(2,3) by simp
  ultimately have "map_of ?al (rname lc n) = Some (c n)" by (rule map_of_is_SomeI)
  then show ?thesis by (simp add: join_row_def)
qed

lemma merge_sfx: "merge_df ''cliente_id'' ventas_sfx clientes_sfx = Inr merged_sfx"
  by (simp add: merge_df_def merged_sfx_def ventas_sfx_def clientes_sfx_def column_def
        keys_clash_def has_text_def mk_row_def merged_columns_def lname_def rname_def)

lemma digit_val_digit: "digit_val (digit n) = Some (n mod 10)"
  by (simp add: digit_val_def digit_def Let_def)

lemma digit_of_digit_val: "digit_val c = Some n \<Longrightarrow> digit n = c \<and> n < 10"
  by (auto simp: digit_val_def digit_def Let_def split: if_splits)

lemma show2_digits: "a < 10 \<Longrightarrow> b < 10 \<Longrightarrow> show2 (a * 10 + b) = [digit a, digit b]"
  by (simp add: show2_def digit_def)

lemma show4_digits:
  assumes "a < 10" "b < 10" "c < 10" "d < 10"
  shows "show4 (a * 1000 + (b * 100 + (c * 10 + d))) = [digit a, digit b, digit c, digit d]"
proof -
  let ?n = "a * 1000 + (b * 100 + (c * 10 + d))"
  have r1: "b * 100 + (c * 10 + d) < 1000" and r2: "c * 10 + d < 100"
    using assms by linarith+
  have e1: "?n div 1000 = a" using r1 by simp
  have "?n = (a * 10 + b) * 100 + (c * 10 + d)" by simp
  then have e2: "?n div 100 = a * 10 + b" using r2 by simp
  have "?n = (a * 100 + b * 10 + c) * 10 + d" by simp
  then have e3: "?n div 10 = a * 100 + b * 10 + c" using assms(4) by simp
  have m2: "(a * 10 + b) mod 10 = b" using assms(2) by simp
  have m3: "(a * 100 + b * 10 + c) mod 10 = c"
  proof -
    have "((a * 10 + b) * 10 + c) mod 10 = c mod 10" by (rule mod_mult_self3)
    moreover have "(a * 10 + b) * 10 + c = a * 100 + b * 10 + c" by simp
    ultimately show ?thesis using assms(3) by (simp only: mod_less)
  qed
  have m4: "?n mod 10 = d"
  proof -
    have "((a * 100 + b * 10 + c) * 10 + d) mod 10 = d mod 10" by (rule mod_mult_self3)
    moreover have "(a * 100 + b * 10 + c) * 10 + d = ?n" by simp
    ultimately show ?thesis using assms(4) by (simp only: mod_less)
  qed
  show ?thesis using assms by (simp add: show4_def digit_def e1 e2 e3 m2 m3 m4 del: One_nat_def)
qed

lemma strftime_parse_date:
  assumes "parse_date s = Some ts"
  shows "strftime ts = s \<and> valid_ts ts \<and> tod ts = 0"
  using assms
  apply (induction s rule: parse_date.induct)
  apply (auto split: if_splits option.splits simp: Let_def strftime_def show4_digits show2_digits dest!: digit_of_digit_val)
  done

lemma ydec:
  assumes "(y::nat) \<le> 9999"
  shows "y div 1000 mod 10 * 1000 + y div 100 mod 10 * 100 + y div 10 mod 10 * 10 + y mod 10 = y"
proof -
  have d100: "y div 100 = y div 10 div 10" and d1000: "y div 1000 = y div 10 div 10 div 10"
    by (simp_all add: div_mult2_eq [symmetric])
  have q: "y div 1000 < 10" using assms by simp
  have 1: "y = y div 10 * 10 + y mod 10" by simp
  have 2: "y div 10 = y div 10 div 10 * 10 + y div 10 mod 10" by simp
  have 3: "y div 10 div 10 = y div 10 div 10 div 10 * 10 + y div 10 div 10 mod 10" by simp
  show ?thesis using q 1 2 3 unfolding d100 d1000 by (simp only: mod_less)
qed

lemma mdec:
  assumes "(m::nat) \<le> 99"
  shows "m div 10 mod 10 * 10 + m mod 10 = m"
proof -
  have "m div 10 < 10" using assms by simp
  then show ?thesis by simp
qed

lemma digits_val2: "digits_val [digit a, digit b] = Some (a mod 10 * 10 + b mod 10)"
  by (simp add: digit_val_digit)

lemma digits_val4:
  "digits_val [digit a, digit b, digit c, digit d] =
     Some (a mod 10 * 1000 + b mod 10 * 100 + c mod 10 * 10 + d mod 10)"
  by (simp add: digit_val_digit)

lemma parse_date_strftime:
  assumes "valid_ts ts"
  shows "parse_date (strftime ts) = Some (ts\<lparr>tod := 0\<rparr>)"
proof -
  have y: "year ts \<le> 9999" and m: "month ts \<le> 99" and d: "day ts \<le> 99"
    using assms by (auto simp: valid_ts_def days_in_month_def split: if_splits)
  have v: "valid_ts (ts\<lparr>tod := 0\<rparr>)" using assms by (simp add: valid_ts_def)
  have e: "\<lparr>year = year ts, month = month ts, day = day ts, tod = 0\<rparr> = ts\<lparr>tod := 0\<rparr>" by simp
  show ?thesis
    unfolding strftime_def show4_def show2_def
    by (simp add: digits_val2 digits_val4 ydec [OF y] mdec [OF m] mdec [OF d] e v
             del: digits_val.simps)
qed

lemma zero_step_rows:
  "rows (if 0 < length (filter lt_zero (column ''importe'' t)) then zero_negatives t else t) =
     map (\<lambda>r. if lt_zero (r ''importe'') then r(''importe'' := Num 0) else r) (rows t)"
proof (cases "filter lt_zero (column ''importe'' t) = []")
  case True
  then have "\<forall>r \<in> set (rows t). \<not> lt_zero (r ''importe'')"
    by (auto simp: filter_empty_conv column_def)
  then have "map (\<lambda>r. if lt_zero (r ''importe'') then r(''importe'' := Num 0) else r) (rows t) = rows t"
    by (intro map_idI) simp
  with True show ?thesis by simp
next
  case False
  then show ?thesis by (simp add: zero_negatives_def)
qed

lemma zero_step_columns:
  "columns (if 0 < length (filter lt_zero (column ''importe'' t)) then zero_negatives t else t) = columns t"
  by (simp add: zero_negatives_def)

lemma fill_step_rows:
  "rows (if \<exists>v \<in> set (column c t). isnull v then fillna c m t else t) =
     map (\<lambda>r. if r c = Null then r(c := m) else r) (rows t)"
proof (cases "\<exists>v \<in> set (column c t). isnull v")
  case True
  then show ?thesis by (simp add: fillna_def isnull_def)
next
  case False
  moreover have "r c \<in> set (column c t)" if "r \<in> set (rows t)" for r
    using that by (simp add: column_def)
  ultimately have "\<forall>r \<in> set (rows t). r c \<noteq> Null"
    unfolding isnull_def by metis
  then have "map (\<lambda>r. if r c = Null then r(c := m) else r) (rows t) = rows t"
    by (intro map_idI) simp
  with False show ?thesis by simp
qed

lemma fill_step_columns:
  "columns (if \<exists>v \<in> set (column c t). isnull v then fillna c m t else t) = columns t"
  by (simp add: fillna_def)

lemma importe_stage_Inr:
  assumes "importe_stage t = Inr t'" and "''importe'' \<in> set (columns t)"
  shows "columns t' = columns t"
    and "rows t' = map (\<lambda>r. r(''importe'' := repair_importe (mean (corrected (column ''importe'' t))) (r ''importe''))) (rows t)"
    and "\<forall>v \<in> set (column ''importe'' t). is_number_or_null v"
proof -
  let ?t1 = "if 0 < length (filter lt_zero (column ''importe'' t)) then zero_negatives t else t"
  let ?m = "mean (column ''importe'' ?t1)"
  let ?t2 = "if \<exists>v \<in> set (column ''importe'' ?t1). isnull v then fillna ''importe'' ?m ?t1 else ?t1"
  from assms show ok: "\<forall>v \<in> set (column ''importe'' t). is_number_or_null v"
    by (auto simp: importe_stage_def split: if_splits)
  with assms have t': "t' = ?t2"
    by (simp add: importe_stage_def Let_def split: if_splits)
  show "columns t' = columns t"
    unfolding t' by (simp only: fill_step_columns zero_step_columns)
  have c1: "column ''importe'' ?t1 = corrected (column ''importe'' t)"
    unfolding column_def [of _ ?t1] zero_step_rows by (simp add: column_def corrected_def)
  have "rows t' = map (\<lambda>r. if r ''importe'' = Null then r(''importe'' := ?m) else r)
                    (map (\<lambda>r. if lt_zero (r ''importe'') then r(''importe'' := Num 0) else r) (rows t))"
    unfolding t' by (simp only: fill_step_rows zero_step_rows)
  also have "\<dots> = map (\<lambda>r. r(''importe'' := repair_importe ?m (r ''importe''))) (rows t)"
    by (auto simp: repair_importe_def)
  finally show "rows t' = map (\<lambda>r. r(''importe'' := repair_importe (mean (corrected (column ''importe'' t))) (r ''importe''))) (rows t)"
    by (simp only: c1)
qed

lemma nombre_stage_columns: "columns (nombre_stage t) = columns t"
  by (simp add: nombre_stage_def fillna_def)

lemma nombre_stage_rows:
  "rows (nombre_stage t) =
     (if ''nombre_cliente'' \<in> set (columns t)
      then map (\<lambda>r. if r ''nombre_cliente'' = Null then r(''nombre_cliente'' := Str ''Desconocido'') else r) (rows t)
      else rows t)"
proof (cases "''nombre_cliente'' \<in> set (columns t)")
  case True
  then have "nombre_stage t =
      (if \<exists>v \<in> set (column ''nombre_cliente'' t). isnull v
       then fillna ''nombre_cliente'' (Str ''Desconocido'') t else t)"
    by (simp add: nombre_stage_def)
  with True show ?thesis by (simp only: fill_step_rows if_True)
next
  case False
  then show ?thesis by (simp add: nombre_stage_def)
qed

lemma ts_le_iff_not_lt: "ts_le a b \<longleftrightarrow> \<not> ts_lt b a"
  by (auto simp: ts_le_def ts_lt_def)

lemma to_datetime_cases: "to_datetime P v = Null \<or> (\<exists>ts. to_datetime P v = Ts ts)"
  by (simp add: to_datetime_def split: option.splits)

lemma fecha_stage_columns: "columns (fecha_stage P max_date t) = columns t"
  by (simp add: fecha_stage_def set_rows_def Let_def)

lemma range_step_rows:
  assumes "\<forall>r \<in> set rs. \<exists>ts. r c = Ts ts"
  shows "(if 0 < length (filter (\<lambda>r. cell_lt (r c) lo \<or> cell_gt (r c) hi) rs)
          then filter (\<lambda>r. cell_ge (r c) lo \<and> cell_le (r c) hi) rs else rs)
         = filter (\<lambda>r. cell_ge (r c) lo \<and> cell_le (r c) hi) rs"
proof (cases "filter (\<lambda>r. cell_lt (r c) lo \<or> cell_gt (r c) hi) rs = []")
  case True
  then have "\<forall>r \<in> set rs. \<not> (cell_lt (r c) lo \<or> cell_gt (r c) hi)"
    by (simp add: filter_empty_conv)
  with assms have "\<forall>r \<in> set rs. cell_ge (r c) lo \<and> cell_le (r c) hi"
    by (fastforce simp: cell_lt_def cell_gt_def cell_ge_def cell_le_def ts_le_iff_not_lt)
  then have "filter (\<lambda>r. cell_ge (r c) lo \<and> cell_le (r c) hi) rs = rs"
    by (simp add: filter_id_conv)
  with True show ?thesis by simp
next
  case False
  then show ?thesis by simp
qed

lemma rows_set_rows: "rows (set_rows rs t) = rs"
  by (simp add: set_rows_def)

lemma rows_if: "rows (if c then a else b) = (if c then rows a else rows b)"
  by simp

lemma fecha_stage_rows:
  assumes "''fecha_venta'' \<in> set (columns t)"
  shows "rows (fecha_stage P max_date t) =
           map (\<lambda>r. r(''fecha_venta'' := strftime_cell (to_datetime P (r ''fecha_venta''))))
               (filter (\<lambda>r. in_range max_date (to_datetime P (r ''fecha_venta''))) (rows t))"
proof -
  let ?f = "''fecha_venta''"
  let ?u = "\<lambda>r::row. r(?f := to_datetime P (r ?f))"
  let ?rs1 = "map ?u (rows t)"
  let ?rs2 = "filter (\<lambda>r. \<not> isnull (r ?f)) ?rs1"
  let ?ok = "\<lambda>r::row. cell_ge (r ?f) min_date \<and> cell_le (r ?f) max_date"
  have two: "(if \<exists>v \<in> set (map (\<lambda>r. r ?f) ?rs1). isnull v then ?rs2 else ?rs1) = ?rs2"
    by (auto simp: filter_id_conv)
  have ts: "\<forall>r \<in> set ?rs2. \<exists>ts. r ?f = Ts ts"
    using to_datetime_cases [of P] by (fastforce simp: isnull_def)
  have "rows (fecha_stage P max_date t) =
          map (\<lambda>r. r(?f := strftime_cell (r ?f)))
            (if 0 < length (filter (\<lambda>r. cell_lt (r ?f) min_date \<or> cell_gt (r ?f) max_date)
                              (if \<exists>v \<in> set (map (\<lambda>r. r ?f) ?rs1). isnull v then ?rs2 else ?rs1))
             then filter ?ok (if \<exists>v \<in> set (map (\<lambda>r. r ?f) ?rs1). isnull v then ?rs2 else ?rs1)
             else (if \<exists>v \<in> set (map (\<lambda>r. r ?f) ?rs1). isnull v then ?rs2 else ?rs1))"
    using assms
    by (simp only: fecha_stage_def Let_def rows_set_rows rows_if column_def simp_thms if_False)
  also have "\<dots> = map (\<lambda>r. r(?f := strftime_cell (r ?f))) (filter ?ok ?rs2)"
    by (simp only: two range_step_rows [OF ts])
  also have "filter ?ok ?rs2 = filter ?ok ?rs1"
    by (auto simp: isnull_def cell_ge_def intro!: filter_cong)
  also have "filter ?ok ?rs1 = map ?u (filter (\<lambda>r. in_range max_date (to_datetime P (r ?f))) (rows t))"
    by (simp add: filter_map comp_def in_range_def)
  finally show ?thesis by (auto simp: fun_eq_iff)
qed

lemma numbers_corrected:
  "numbers (corrected vs) = map (\<lambda>x. if x < 0 then 0 else x) (numbers vs)"
proof (induction vs)
  case Nil
  show ?case by (simp add: corrected_def)
next
  case (Cons v vs)
  then show ?case by (cases v) (auto simp: corrected_def lt_zero_def)
qed

lemma numbers_all_null: "\<forall>v \<in> set vs. v = Null \<Longrightarrow> numbers vs = []"
  by (induction vs) auto

lemma numbers_nonempty:
  "\<forall>v \<in> set vs. is_number_or_null v \<Longrightarrow> \<exists>v \<in> set vs. v \<noteq> Null \<Longrightarrow> numbers vs \<noteq> []"
proof (induction vs)
  case Nil
  then show ?case by simp
next
  case (Cons v vs)
  then show ?case by (cases v) (auto simp: is_number_or_null_def)
qed

lemma mean_nonneg:
  assumes "numbers vs \<noteq> []" and "\<forall>x \<in> set (numbers vs). 0 \<le> x"
  shows "\<exists>m. mean vs = Num m \<and> 0 \<le> m"
proof -
  have "0 \<le> sum_list (numbers vs)" using assms(2) by (simp add: sum_list_nonneg)
  then have "0 \<le> sum_list (numbers vs) / of_nat (length (numbers vs))" by simp
  with assms(1) show ?thesis by (simp add: mean_def Let_def)
qed

lemma run_Written_iff:
  "run P e = Written out \<longleftrightarrow>
     (\<exists>v c m. ventas_csv e = Loaded v \<and> clientes_csv e = Loaded c
        \<and> merge_df ''cliente_id'' v c = Inr m \<and> clean P (today e) m = Inr out \<and> write_ok e)"
  by (auto simp: run_def split: read_result.splits sum.splits if_splits)

lemma clean_Inr_iff:
  "clean P now t = Inr out \<longleftrightarrow>
     (\<exists>t1. importe_stage t = Inr t1 \<and> out = fecha_stage P now (nombre_stage t1))"
  by (auto simp: clean_def quality_repair_def split: sum.splits)

lemma fecha_stage_other_cells:
  assumes "r' \<in> set (rows (fecha_stage P now t))"
  shows "\<exists>r \<in> set (rows t). \<forall>c. c \<noteq> ''fecha_venta'' \<longrightarrow> r' c = r c"
proof (cases "''fecha_venta'' \<in> set (columns t)")
  case True
  with assms show ?thesis by (auto simp: fecha_stage_rows)
next
  case False
  with assms show ?thesis by (auto simp: fecha_stage_def)
qed

lemma nombre_stage_other_cells:
  assumes "r' \<in> set (rows (nombre_stage t))"
  shows "\<exists>r \<in> set (rows t). (\<forall>c. c \<noteq> ''nombre_cliente'' \<longrightarrow> r' c = r c)
           \<and> (''nombre_cliente'' \<in> set (columns t) \<longrightarrow>
                r' ''nombre_cliente'' = (if r ''nombre_cliente'' = Null then Str ''Desconocido'' else r ''nombre_cliente''))"
  using assms by (auto simp: nombre_stage_rows split: if_splits)

lemma importe_stage_absent: "''importe'' \<notin> set (columns t) \<Longrightarrow> importe_stage t = Inr t"
  by (simp add: importe_stage_def)

lemma importe_stage_columns:
  assumes "importe_stage t = Inr t'"
  shows "columns t' = columns t"
proof (cases "''importe'' \<in> set (columns t)")
  case True
  with assms show ?thesis by (rule importe_stage_Inr(1))
next
  case False
  with assms show ?thesis by (simp add: importe_stage_absent)
qed

lemma importe_stage_map:
  assumes "importe_stage t = Inr t'"
  shows "\<exists>g. rows t' = map g (rows t) \<and> (\<forall>r c. c \<noteq> ''importe'' \<longrightarrow> g r c = r c)"
proof (cases "''importe'' \<in> set (columns t)")
  case True
  from importe_stage_Inr(2) [OF assms True] show ?thesis
    by (intro exI [of _ "\<lambda>r. r(''importe'' := repair_importe (mean (corrected (column ''importe'' t))) (r ''importe''))"]) simp
next
  case False
  with assms have "t' = t" by (simp add: importe_stage_absent)
  then show ?thesis by (intro exI [of _ "\<lambda>r. r"]) simp
qed

lemma nombre_stage_map:
  "\<exists>g. rows (nombre_stage t) = map g (rows t) \<and> (\<forall>r c. c \<noteq> ''nombre_cliente'' \<longrightarrow> g r c = r c)"
proof (cases "''nombre_cliente'' \<in> set (columns t)")
  case True
  then show ?thesis
    by (intro exI [of _ "\<lambda>r. if r ''nombre_cliente'' = Null then r(''nombre_cliente'' := Str ''Desconocido'') else r"])
       (simp add: nombre_stage_rows)
next
  case False
  then show ?thesis by (intro exI [of _ "\<lambda>r. r"]) (simp add: nombre_stage_rows)
qed

lemma importe_stage_other_cells:
  assumes "importe_stage t = Inr t'" and "r' \<in> set (rows t')"
  shows "\<exists>r \<in> set (rows t). \<forall>c. c \<noteq> ''importe'' \<longrightarrow> r' c = r c"
proof -
  from importe_stage_map [OF assms(1)] obtain g
    where g: "rows t' = map g (rows t)" "\<forall>r c. c \<noteq> ''importe'' \<longrightarrow> g r c = r c" by blast
  from assms(2) g(1) obtain r where "r \<in> set (rows t)" "r' = g r" by auto
  with g(2) show ?thesis by blast
qed

lemma clamped_nonneg: "\<forall>x \<in> set (map (\<lambda>x. if x < 0 then 0 else x) xs). (0::rat) \<le> x"
  by (induction xs) auto

lemma repair_importe_nonneg:
  assumes "is_number_or_null v" and "0 \<le> m"
  shows "\<exists>x. repair_importe (Num m) v = Num x \<and> 0 \<le> x"
  using assms by (cases v) (auto simp: repair_importe_def lt_zero_def is_number_or_null_def)

lemma importe_stage_nonneg:
  assumes "importe_stage t = Inr t'" and "''importe'' \<in> set (columns t)"
    and "\<exists>x \<in> set (column ''importe'' t). x \<noteq> Null" and "r' \<in> set (rows t')"
  shows "\<exists>x. r' ''importe'' = Num x \<and> 0 \<le> x"
proof -
  let ?col = "column ''importe'' t"
  note ok = importe_stage_Inr(3) [OF assms(1,2)]
  have "numbers ?col \<noteq> []" using ok assms(3) by (rule numbers_nonempty)
  then have ne: "numbers (corrected ?col) \<noteq> []" by (simp add: numbers_corrected)
  have nn: "\<forall>x \<in> set (numbers (corrected ?col)). 0 \<le> x"
    unfolding numbers_corrected by (rule clamped_nonneg)
  from mean_nonneg [OF ne nn] obtain m where m: "mean (corrected ?col) = Num m" "0 \<le> m"
    by blast
  have "rows t' = map (\<lambda>r. r(''importe'' := repair_importe (Num m) (r ''importe''))) (rows t)"
    using importe_stage_Inr(2) [OF assms(1,2)] by (simp only: m(1))
  with assms(4) have "r' \<in> (\<lambda>r. r(''importe'' := repair_importe (Num m) (r ''importe''))) ` set (rows t)"
    by (simp only: set_map)
  then obtain r where r: "r \<in> set (rows t)"
      "r' = r(''importe'' := repair_importe (Num m) (r ''importe''))"
    by (rule imageE)
  from r(1) ok have "is_number_or_null (r ''importe'')" by (simp add: column_def)
  from repair_importe_nonneg [OF this m(2)]
  obtain x where x: "repair_importe (Num m) (r ''importe'') = Num x" "0 \<le> x" by blast
  have "r' ''importe'' = repair_importe (Num m) (r ''importe'')"
    by (subst r(2)) (rule fun_upd_same)
  with x show ?thesis by (simp only: val.inject simp_thms ex_simps)
qed

lemma importe_stage_column:
  assumes "importe_stage t = Inr t'" and "''importe'' \<in> set (columns t)"
  shows "column ''importe'' t' =
           map (repair_importe (mean (corrected (column ''importe'' t)))) (column ''importe'' t)"
  by (simp add: column_def importe_stage_Inr(2) [OF assms])

lemma importe_stage_column_other:
  assumes "importe_stage t = Inr t'" and "c \<noteq> ''importe''"
  shows "column c t' = column c t"
proof -
  from importe_stage_map [OF assms(1)] obtain g
    where g: "rows t' = map g (rows t)" "\<forall>r c. c \<noteq> ''importe'' \<longrightarrow> g r c = r c" by blast
  show ?thesis using assms(2) g(2) by (simp add: column_def g(1))
qed

lemma nombre_stage_column:
  assumes "''nombre_cliente'' \<in> set (columns t)"
  shows "column ''nombre_cliente'' (nombre_stage t) =
           map (\<lambda>v. if v = Null then Str ''Desconocido'' else v) (column ''nombre_cliente'' t)"
  using assms by (simp add: column_def nombre_stage_rows)

lemma nombre_stage_column_other:
  assumes "c \<noteq> ''nombre_cliente''"
  shows "column c (nombre_stage t) = column c t"
  using assms by (simp add: column_def nombre_stage_rows)

lemma fecha_stage_column:
  assumes "''fecha_venta'' \<in> set (columns t)"
  shows "column ''fecha_venta'' (fecha_stage P now t) =
           map strftime_cell (filter (in_range now) (map (to_datetime P) (column ''fecha_venta'' t)))"
  by (simp add: column_def fecha_stage_rows [OF assms] filter_map comp_def)

lemma fecha_stage_column_other:
  assumes "''fecha_venta'' \<in> set (columns t)" and "c \<noteq> ''fecha_venta''"
  shows "column c (fecha_stage P now t) =
           map snd (filter (\<lambda>p. in_range now (to_datetime P (fst p)))
                       (zip (column ''fecha_venta'' t) (column c t)))"
proof -
  have "map (\<lambda>r. r c) (filter (\<lambda>r. in_range now (to_datetime P (r ''fecha_venta''))) rs)
      = map snd (filter (\<lambda>p. in_range now (to_datetime P (fst p)))
                   (zip (map (\<lambda>r. r ''fecha_venta'') rs) (map (\<lambda>r. r c) rs)))" for rs :: "row list"
    by (induction rs) simp_all
  then show ?thesis
    using assms(2) by (simp add: column_def fecha_stage_rows [OF assms(1)] comp_def)
qed

lemma fillna_null: "fillna c Null t = t"
proof -
  have "map (\<lambda>r. if isnull (r c) then r(c := Null) else r) (rows t) = rows t"
    by (intro map_idI) (auto simp: isnull_def fun_eq_iff)
  then show ?thesis by (simp add: fillna_def)
qed

lemma importe_stage_all_null:
  assumes "\<forall>x \<in> set (column ''importe'' t). x = Null"
  shows "importe_stage t = Inr t"
proof -
  have n: "filter lt_zero (column ''importe'' t) = []"
    using assms by (auto simp: filter_empty_conv lt_zero_def)
  have ok: "\<not> (\<exists>v \<in> set (column ''importe'' t). \<not> is_number_or_null v)"
    using assms by (auto simp: is_number_or_null_def)
  have m: "mean (column ''importe'' t) = Null"
    using assms by (simp add: mean_def numbers_all_null)
  show ?thesis
    using ok by (simp add: importe_stage_def n m fillna_null)
qed


lemma importe_stage_Inl:
  "importe_stage t = Inl x \<Longrightarrow> x = TypeError"
  by (auto simp: importe_stage_def Let_def split: if_splits)


lemma parse_date_length: "parse_date s = Some d \<Longrightarrow> length s = 10"
  by (induction s rule: parse_date.induct) simp_all

lemma iso_parser_canonical: "parse_date s = Some d \<Longrightarrow> iso_parser (Str s) = Some d"
  by (simp add: iso_parser_def parse_iso_def parse_date_length)

lemma ts_le_midnight:
  assumes "ts_le a b"
  shows "ts_le (a\<lparr>tod := 0\<rparr>) b" and "ts_le (a\<lparr>tod := 0\<rparr>) (b\<lparr>tod := 0\<rparr>)"
  using assms by (auto simp: ts_le_def)

lemma ts_le_min_date_midnight: "ts_le min_date a \<Longrightarrow> ts_le min_date (a\<lparr>tod := 0\<rparr>)"
  by (auto simp: ts_le_def min_date_def)

lemma strftime_midnight: "strftime (a\<lparr>tod := 0\<rparr>) = strftime a"
  by (simp add: strftime_def)

lemma parse_time_bound: "parse_time s = Some t \<Longrightarrow> t < 86400000000000"
proof (induction s rule: parse_time.induct)
  case (1 h1 h2 s1 m1 m2 s2 c1 c2)
  then obtain h m s where hms: "h < 24" "m < 60" "s < 60"
      and t: "t = ((h * 60 + m) * 60 + s) * 1000000000"
    by (auto split: if_splits option.splits simp del: digits_val.simps)
  have a: "h * 60 + m \<le> 1439" using hms by simp
  have "(h * 60 + m) * 60 \<le> 1439 * 60" using a by (rule mult_right_mono) simp
  then have "(h * 60 + m) * 60 + s \<le> 86399" using hms(3) by simp
  then have "((h * 60 + m) * 60 + s) * 1000000000 \<le> 86399 * 1000000000" by (rule mult_right_mono) simp
  then show ?case unfolding t by simp
qed simp_all

lemma iso_parser_valid:
  assumes "iso_parser v = Some ts"
  shows "valid_ts ts"
proof -
  from assms obtain s where v: "v = Str s" and p: "parse_iso s = Some ts"
    by (cases v) (simp_all add: iso_parser_def)
  show ?thesis
  proof (cases "length s = 10")
    case True
    with p have "parse_date s = Some ts" by (simp add: parse_iso_def)
    then show ?thesis by (simp add: strftime_parse_date)
  next
    case False
    with p obtain d t where d: "parse_date (take 10 s) = Some d" and t: "parse_time (drop 11 s) = Some t"
        and ts: "ts = d\<lparr>tod := t\<rparr>"
      by (auto simp: parse_iso_def split: if_splits option.splits)
    from strftime_parse_date [OF d] have "valid_ts d" by simp
    with parse_time_bound [OF t] show ?thesis by (simp add: ts valid_ts_def)
  qed
qed

lemma digit_val_chars:
  "digit_val CHR ''0'' = Some 0" "digit_val CHR ''1'' = Some 1" "digit_val CHR ''2'' = Some 2"
  "digit_val CHR ''3'' = Some 3" "digit_val CHR ''4'' = Some 4" "digit_val CHR ''5'' = Some 5"
  "digit_val CHR ''6'' = Some 6" "digit_val CHR ''7'' = Some 7" "digit_val CHR ''8'' = Some 8"
  "digit_val CHR ''9'' = Some 9"
  by (simp_all add: digit_val_def Let_def)

lemma digit_chars:
  "digit 0 = CHR ''0''" "digit 1 = CHR ''1''" "digit 2 = CHR ''2''" "digit 3 = CHR ''3''"
  "digit 4 = CHR ''4''" "digit 5 = CHR ''5''" "digit 6 = CHR ''6''" "digit 7 = CHR ''7''"
  "digit 8 = CHR ''8''" "digit 9 = CHR ''9''"
  by code_simp+

lemma below_ten:
  "(m::nat) < 10 \<Longrightarrow> m = 0 \<or> m = 1 \<or> m = 2 \<or> m = 3 \<or> m = 4 \<or> m = 5 \<or> m = 6 \<or> m = 7 \<or> m = 8 \<or> m = 9"
  by arith

lemma digit_Suc_0: "digit (Suc 0) = CHR ''1''"
  using digit_chars(2) by simp

lemma digit_table:
  "digit n = ''0123456789'' ! (n mod 10)"
proof -
  have e: "digit n = digit (n mod 10)" by (simp add: digit_def)
  have "n mod 10 < 10" by simp
  from below_ten [OF this] show ?thesis
    unfolding e by (elim disjE) (simp_all add: digit_chars digit_Suc_0)
qed



lemma fecha_stage_cells:
  assumes "''fecha_venta'' \<in> set (columns t)" and "\<forall>v ts. P v = Some ts \<longrightarrow> valid_ts ts"
    and "r \<in> set (rows (fecha_stage P now t))"
  shows "\<exists>d. r ''fecha_venta'' = Str (strftime d) \<and> valid_ts d \<and> ts_le min_date d \<and> ts_le d now"
proof -
  from assms(3) obtain r0 where r0: "in_range now (to_datetime P (r0 ''fecha_venta''))"
      and r: "r = r0(''fecha_venta'' := strftime_cell (to_datetime P (r0 ''fecha_venta'')))"
    by (auto simp: fecha_stage_rows [OF assms(1)])
  from r0 obtain d where d: "to_datetime P (r0 ''fecha_venta'') = Ts d" "ts_le min_date d" "ts_le d now"
    by (cases "to_datetime P (r0 ''fecha_venta'')") (simp_all add: in_range_def cell_ge_def cell_le_def)
  from d(1) have "P (r0 ''fecha_venta'') = Some d"
    by (simp add: to_datetime_def split: if_splits option.splits)
  with assms(2) have "valid_ts d" by blast
  moreover have "r ''fecha_venta'' = Str (strftime d)"
    by (simp add: r d(1) strftime_cell_def)
  ultimately show ?thesis using d(2,3) by blast
qed

lemma table_eqI: "columns a = columns b \<Longrightarrow> rows a = rows b \<Longrightarrow> a = (b::table)"
  by simp

lemma fecha_stage_canonical:
  assumes "''fecha_venta'' \<in> set (columns t)"
    and "\<forall>s d. parse_date s = Some d \<longrightarrow> P (Str s) = Some d"
    and "\<forall>r \<in> set (rows t). \<exists>s d. r ''fecha_venta'' = Str s \<and> parse_date s = Some d
            \<and> ts_le min_date d \<and> ts_le d now"
  shows "fecha_stage P now t = t"
proof (rule table_eqI)
  show "columns (fecha_stage P now t) = columns t" by (rule fecha_stage_columns)
  have k: "in_range now (to_datetime P (r ''fecha_venta''))
         \<and> r(''fecha_venta'' := strftime_cell (to_datetime P (r ''fecha_venta''))) = r"
    if "r \<in> set (rows t)" for r
  proof -
    from assms(3) that obtain s d where s: "r ''fecha_venta'' = Str s" "parse_date s = Some d"
        "ts_le min_date d" "ts_le d now" by blast
    from assms(2) s(2) have "P (Str s) = Some d" by blast
    then have td: "to_datetime P (Str s) = Ts d" by (simp add: to_datetime_def)
    have sd: "strftime d = s" using strftime_parse_date [OF s(2)] by simp
    have "strftime_cell (to_datetime P (Str s)) = Str s"
      by (simp add: td strftime_cell_def sd)
    moreover have "in_range now (to_datetime P (Str s))"
      using s(3,4) by (simp add: td in_range_def cell_ge_def cell_le_def)
    ultimately show ?thesis unfolding s(1) [symmetric] by simp
  qed
  then have "filter (\<lambda>r. in_range now (to_datetime P (r ''fecha_venta''))) (rows t) = rows t"
    by (simp add: filter_id_conv)
  moreover have "map (\<lambda>r. r(''fecha_venta'' := strftime_cell (to_datetime P (r ''fecha_venta'')))) (rows t) = rows t"
    using k by (intro map_idI) simp
  ultimately show "rows (fecha_stage P now t) = rows t"
    by (simp only: fecha_stage_rows [OF assms(1)])
qed

section \<open>The example frames evaluated\<close>

lemma merge_ex: "merge_df ''cliente_id'' ventas_ex clientes_ex = Inr merged_ex"
  by (simp add: merge_df_def merged_ex_def ventas_ex_def clientes_ex_def column_def
        keys_clash_def has_text_def mk_row_def merged_columns_def lname_def rname_def)

lemma merged_ex_columns:
  "columns merged_ex = [''cliente_id'', ''importe'', ''fecha_venta'', ''nombre_cliente'']"
  by (simp add: merged_ex_def merged_columns_def lname_def rname_def ventas_ex_def clientes_ex_def)

lemma merged_ex_importe: "column ''importe'' merged_ex = [Num (-5), Null, Null]"
  by (simp add: column_def merged_ex_def merge_rows_def join_row_def lname_def rname_def
        ventas_ex_def clientes_ex_def mk_row_def)

lemma merged_ex_nombre: "column ''nombre_cliente'' merged_ex = [Null, Str ''Ana'', Str ''Ana Maria'']"
  by (simp add: column_def merged_ex_def merge_rows_def join_row_def lname_def rname_def
        ventas_ex_def clientes_ex_def mk_row_def)

lemma merged_ex_fecha:
  "column ''fecha_venta'' merged_ex = [Str ''2022-13-40'', Str ''2021-05-01'', Str ''2021-05-01'']"
  by (simp add: column_def merged_ex_def merge_rows_def join_row_def lname_def rname_def
        ventas_ex_def clientes_ex_def mk_row_def)

lemma importe_stage_ok:
  assumes "\<forall>v \<in> set (column ''importe'' t). is_number_or_null v"
  shows "\<exists>t'. importe_stage t = Inr t'"
  using assms by (simp add: importe_stage_def Let_def)

lemma run_ex_written: "\<exists>out. run iso_parser env_ex = Written out"
proof -
  have "\<forall>v \<in> set (column ''importe'' merged_ex). is_number_or_null v"
    by (simp add: merged_ex_importe is_number_or_null_def)
  from importe_stage_ok [OF this] obtain t1 where "importe_stage merged_ex = Inr t1" ..
  then have "clean iso_parser now_ex merged_ex = Inr (fecha_stage iso_parser now_ex (nombre_stage t1))"
    by (simp add: clean_Inr_iff)
  then show ?thesis
    by (simp add: run_Written_iff env_ex_def merge_ex)
qed

lemma merge_null: "merge_df ''cliente_id'' ventas_null clientes_ex = Inr merged_null"
  by (simp add: merge_df_def merged_null_def ventas_null_def clientes_ex_def column_def
        keys_clash_def has_text_def mk_row_def merged_columns_def lname_def rname_def)

lemma merged_null_columns:
  "columns merged_null = [''cliente_id'', ''importe'', ''fecha_venta'', ''nombre_cliente'']"
  by (simp add: merged_null_def merged_columns_def lname_def rname_def ventas_null_def clientes_ex_def)

lemma merged_null_importe: "column ''importe'' merged_null = [Null, Null]"
  by (simp add: column_def merged_null_def merge_rows_def join_row_def lname_def rname_def
        ventas_null_def clientes_ex_def mk_row_def)

lemma merged_null_fecha:
  "column ''fecha_venta'' merged_null = [Str ''2021-05-01'', Str ''2021-05-01'']"
  by (simp add: column_def merged_null_def merge_rows_def join_row_def lname_def rname_def
        ventas_null_def clientes_ex_def mk_row_def)




lemma merge_bare: "merge_df ''cliente_id'' ventas_bare clientes_bare = Inr merged_bare"
  by (simp add: merge_df_def merged_bare_def ventas_bare_def clientes_bare_def column_def
        keys_clash_def has_text_def mk_row_def merged_columns_def lname_def rname_def)

lemma merged_bare_columns: "columns merged_bare = [''cliente_id'', ''producto'', ''ciudad'']"
  by (simp add: merged_bare_def merged_columns_def lname_def rname_def ventas_bare_def clientes_bare_def)

lemma iso_parser_examples:
  "iso_parser (Str ''2021-05-01'') = Some \<lparr>year = 2021, month = 5, day = 1, tod = 0\<rparr>"
  "iso_parser (Str ''2022-13-40'') = None"
  by (simp_all add: iso_parser_def parse_iso_def digit_val_chars valid_ts_def days_in_month_def leap_def)


lemma parse_date_example:
  "parse_date ''2026-11-04'' = Some \<lparr>year = 2026, month = 11, day = 4, tod = 0\<rparr>"
  by (simp add: digit_val_chars valid_ts_def days_in_month_def leap_def)


lemma strftime_examples:
  "strftime \<lparr>year = 2021, month = 5, day = 1, tod = 0\<rparr> = ''2021-05-01''"
  "strftime now_ex = ''2026-11-04''"
  by (simp_all add: strftime_def show4_def show2_def now_ex_def digit_table)

lemma in_range_examples:
  "in_range now_ex (Ts \<lparr>year = 2021, month = 5, day = 1, tod = 0\<rparr>)"
  "\<not> in_range now_ex (Ts \<lparr>year = 2026, month = 11, day = 4, tod = 82800000000000\<rparr>)"
  "\<not> in_range now_ex Null"
  by (simp_all add: in_range_def cell_ge_def cell_le_def ts_le_def min_date_def now_ex_def)

lemma run_ex_steps:
  obtains t1 where "importe_stage merged_ex = Inr t1"
    and "run iso_parser env_ex = Written (fecha_stage iso_parser now_ex (nombre_stage t1))"
    and "columns t1 = columns merged_ex"
    and "column ''importe'' t1 = [Num 0, Num 0, Num 0]"
    and "column ''nombre_cliente'' t1 = column ''nombre_cliente'' merged_ex"
    and "column ''fecha_venta'' t1 = column ''fecha_venta'' merged_ex"
proof -
  have "\<forall>v \<in> set (column ''importe'' merged_ex). is_number_or_null v"
    by (simp add: merged_ex_importe is_number_or_null_def)
  from importe_stage_ok [OF this] obtain t1 where t1: "importe_stage merged_ex = Inr t1" ..
  then have "clean iso_parser now_ex merged_ex = Inr (fecha_stage iso_parser now_ex (nombre_stage t1))"
    by (simp add: clean_Inr_iff)
  then have r: "run iso_parser env_ex = Written (fecha_stage iso_parser now_ex (nombre_stage t1))"
    by (simp add: run_Written_iff env_ex_def merge_ex)
  have c: "''importe'' \<in> set (columns merged_ex)" by (simp add: merged_ex_columns)
  have i: "column ''importe'' t1 = [Num 0, Num 0, Num 0]"
    by (simp add: importe_stage_column [OF t1 c] merged_ex_importe corrected_def mean_def
          repair_importe_def lt_zero_def)
  show thesis
    by (rule that [OF t1 r importe_stage_columns [OF t1] i
          importe_stage_column_other [OF t1] importe_stage_column_other [OF t1]]) simp_all
qed

lemma fecha_ex_readings:
  "map (to_datetime iso_parser) [Str ''2022-13-40'', Str ''2021-05-01'', Str ''2021-05-01'']
     = [Null, Ts \<lparr>year = 2021, month = 5, day = 1, tod = 0\<rparr>, Ts \<lparr>year = 2021, month = 5, day = 1, tod = 0\<rparr>]"
  by (simp add: to_datetime_def iso_parser_examples del: One_nat_def)

lemma output_ex_importe: "output_column ''importe'' (run iso_parser env_ex) = Some [Num 0, Num 0]"
proof -
  obtain t1 where t1: "run iso_parser env_ex = Written (fecha_stage iso_parser now_ex (nombre_stage t1))"
      "columns t1 = columns merged_ex" "column ''importe'' t1 = [Num 0, Num 0, Num 0]"
      "column ''fecha_venta'' t1 = column ''fecha_venta'' merged_ex"
    by (rule run_ex_steps)
  have f: "''fecha_venta'' \<in> set (columns (nombre_stage t1))"
    by (simp add: nombre_stage_columns t1(2) merged_ex_columns)
  show ?thesis
    by (simp add: t1(1) output_column_def fecha_stage_column_other [OF f] nombre_stage_column_other
          t1(3,4) merged_ex_fecha to_datetime_def iso_parser_examples in_range_examples
          del: One_nat_def)
qed

lemma output_ex_nombre:
  "output_column ''nombre_cliente'' (run iso_parser env_ex) = Some [Str ''Ana'', Str ''Ana Maria'']"
proof -
  obtain t1 where t1: "run iso_parser env_ex = Written (fecha_stage iso_parser now_ex (nombre_stage t1))"
      "columns t1 = columns merged_ex"
      "column ''nombre_cliente'' t1 = column ''nombre_cliente'' merged_ex"
      "column ''fecha_venta'' t1 = column ''fecha_venta'' merged_ex"
    by (rule run_ex_steps)
  have f: "''fecha_venta'' \<in> set (columns (nombre_stage t1))"
    by (simp add: nombre_stage_columns t1(2) merged_ex_columns)
  have n: "''nombre_cliente'' \<in> set (columns t1)" by (simp add: t1(2) merged_ex_columns)
  show ?thesis
    by (simp add: t1(1) output_column_def fecha_stage_column_other [OF f] nombre_stage_column_other
          nombre_stage_column [OF n] t1(3,4) merged_ex_fecha merged_ex_nombre to_datetime_def
          iso_parser_examples in_range_examples del: One_nat_def)
qed

lemma output_ex_fecha:
  "output_column ''fecha_venta'' (run iso_parser env_ex) = Some [Str ''2021-05-01'', Str ''2021-05-01'']"
proof -
  obtain t1 where t1: "run iso_parser env_ex = Written (fecha_stage iso_parser now_ex (nombre_stage t1))"
      "columns t1 = columns merged_ex"
      "column ''fecha_venta'' t1 = column ''fecha_venta'' merged_ex"
    by (rule run_ex_steps)
  have f: "''fecha_venta'' \<in> set (columns (nombre_stage t1))"
    by (simp add: nombre_stage_columns t1(2) merged_ex_columns)
  show ?thesis
    by (simp add: t1(1) output_column_def fecha_stage_column [OF f] nombre_stage_column_other
          t1(3) merged_ex_fecha to_datetime_def iso_parser_examples in_range_examples
          strftime_cell_def strftime_examples del: One_nat_def)
qed

lemma run_null:
  "run iso_parser env_null = Written (fecha_stage iso_parser now_ex (nombre_stage merged_null))"
proof -
  have "importe_stage merged_null = Inr merged_null"
    by (rule importe_stage_all_null) (simp add: merged_null_importe)
  then have "clean iso_parser now_ex merged_null = Inr (fecha_stage iso_parser now_ex (nombre_stage merged_null))"
    by (simp add: clean_Inr_iff)
  then show ?thesis by (simp add: run_Written_iff env_null_def merge_null)
qed

lemma output_null_importe:
  "column ''importe'' (fecha_stage iso_parser now_ex (nombre_stage merged_null)) = [Null, Null]"
proof -
  have f: "''fecha_venta'' \<in> set (columns (nombre_stage merged_null))"
    by (simp add: nombre_stage_columns merged_null_columns)
  show ?thesis
    by (simp add: fecha_stage_column_other [OF f] nombre_stage_column_other merged_null_importe
          merged_null_fecha to_datetime_def iso_parser_examples in_range_examples del: One_nat_def)
qed



lemma parse_date_examples:
  "parse_date ''2021-05-01'' = Some \<lparr>year = 2021, month = 5, day = 1, tod = 0\<rparr>"
  by (simp add: digit_val_chars valid_ts_def days_in_month_def leap_def)



section \<open>The claims\<close>

text \<open>
  Claim C1. When the merge succeeds, the joined table has one row for each pair of a sale
  i and a customer j with equal cliente_id, and no other row: its rows are listed by a
  duplicate-free list of exactly these index pairs. So every matching pair gives one joined
  row, also when several customers share the key, and a sale or a customer with no partner
  is in no joined row. The joined row of a pair is the concatenation of the two rows: the
  columns are the sale's columns followed by the customer's columns without the key, a
  shared name carrying the suffix _x for the sale and _y for the customer, and every cell
  of the joined row is the cell of the sale, respectively of the customer, it comes from.
\<close>

theorem merge_one_row_per_matching_pair:
  assumes "merge_df k l r = Inr m"
  shows "columns m = map (\<lambda>n. if n \<noteq> k \<and> n \<in> set (columns r) then n @ ''_x'' else n) (columns l)
                   @ map (\<lambda>n. if n \<in> set (columns l) then n @ ''_y'' else n)
                         (filter (\<lambda>n. n \<noteq> k) (columns r))
       \<and> (\<exists>ps. distinct ps
           \<and> set ps = {(i, j). i < length (rows l) \<and> j < length (rows r)
                                \<and> (rows l ! i) k = (rows r ! j) k}
           \<and> length (rows m) = length ps
           \<and> (\<forall>n < length ps. \<forall>i j. ps ! n = (i, j) \<longrightarrow>
                 (\<forall>c \<in> set (columns l). (c = k \<or> c \<notin> set (columns r)) \<longrightarrow>
                     (rows m ! n) c = (rows l ! i) c)
               \<and> (\<forall>c \<in> set (columns l). c \<noteq> k \<and> c \<in> set (columns r) \<longrightarrow>
                     (rows m ! n) (c @ ''_x'') = (rows l ! i) c)
               \<and> (\<forall>c \<in> set (columns r). c \<notin> set (columns l) \<longrightarrow>
                     (rows m ! n) c = (rows r ! j) c)
               \<and> (\<forall>c \<in> set (columns r). c \<noteq> k \<and> c \<in> set (columns l) \<longrightarrow>
                     (rows m ! n) (c @ ''_y'') = (rows r ! j) c)))"
proof -
  let ?lc = "columns l" and ?rc = "columns r"
  let ?ps = "match_pairs k (rows l) (rows r)"
  from assms have k: "k \<in> set ?lc" "k \<in> set ?rc"
    and d: "distinct (merged_columns k ?lc ?rc)"
    and cm: "columns m = merged_columns k ?lc ?rc"
    and rm: "rows m = merge_rows k ?lc ?rc (rows l) (rows r)"
    by (auto simp: merge_df_def split: if_splits)
  have cols: "columns m = map (\<lambda>n. if n \<noteq> k \<and> n \<in> set ?rc then n @ ''_x'' else n) ?lc
                   @ map (\<lambda>n. if n \<in> set ?lc then n @ ''_y'' else n) (filter (\<lambda>n. n \<noteq> k) ?rc)"
    unfolding cm merged_columns_def by (simp add: lname_def rname_def cong: map_cong)
  have rw: "rows m = map (\<lambda>(i, j). join_row k ?lc ?rc (rows l ! i) (rows r ! j)) ?ps"
    unfolding rm by (rule merge_rows_pairs)
  have cells: "(\<forall>c \<in> set ?lc. (c = k \<or> c \<notin> set ?rc) \<longrightarrow> (rows m ! n) c = (rows l ! i) c)
             \<and> (\<forall>c \<in> set ?lc. c \<noteq> k \<and> c \<in> set ?rc \<longrightarrow> (rows m ! n) (c @ ''_x'') = (rows l ! i) c)
             \<and> (\<forall>c \<in> set ?rc. c \<notin> set ?lc \<longrightarrow> (rows m ! n) c = (rows r ! j) c)
             \<and> (\<forall>c \<in> set ?rc. c \<noteq> k \<and> c \<in> set ?lc \<longrightarrow> (rows m ! n) (c @ ''_y'') = (rows r ! j) c)"
    if n: "n < length ?ps" and p: "?ps ! n = (i, j)" for n i j
  proof -
    have row: "rows m ! n = join_row k ?lc ?rc (rows l ! i) (rows r ! j)"
      using n p by (simp add: rw)
    have a: "(rows m ! n) (lname k ?rc c) = (rows l ! i) c" if "c \<in> set ?lc" for c
      unfolding row using d that by (rule join_row_left)
    have b: "(rows m ! n) (rname ?lc c) = (rows r ! j) c" if "c \<in> set ?rc" "c \<noteq> k" for c
      unfolding row using d that by (rule join_row_right)
    show ?thesis
    proof (intro conjI ballI impI)
      fix c assume "c \<in> set ?lc" "c = k \<or> c \<notin> set ?rc"
      then show "(rows m ! n) c = (rows l ! i) c" using a [of c] by (auto simp: lname_def)
    next
      fix c assume "c \<in> set ?lc" "c \<noteq> k \<and> c \<in> set ?rc"
      then show "(rows m ! n) (c @ ''_x'') = (rows l ! i) c" using a [of c] by (simp add: lname_def)
    next
      fix c assume "c \<in> set ?rc" "c \<notin> set ?lc"
      then show "(rows m ! n) c = (rows r ! j) c" using b [of c] k(1) by (auto simp: rname_def)
    next
      fix c assume "c \<in> set ?rc" "c \<noteq> k \<and> c \<in> set ?lc"
      then show "(rows m ! n) (c @ ''_y'') = (rows r ! j) c" using b [of c] by (simp add: rname_def)
    qed
  qed
  have "distinct ?ps" by (rule distinct_match_pairs)
  moreover have "set ?ps = {(i, j). i < length (rows l) \<and> j < length (rows r)
                                \<and> (rows l ! i) k = (rows r ! j) k}"
    by (rule set_match_pairs)
  moreover have "length (rows m) = length ?ps" by (simp add: rw)
  ultimately show ?thesis using cols cells by blast
qed

theorem merge_one_row_per_matching_pair_witness:
  "merge_df ''cliente_id'' ventas_sfx clientes_sfx = Inr merged_sfx
   \<and> columns merged_sfx = [''cliente_id'', ''importe'', ''ciudad_x'', ''nombre_cliente'', ''ciudad_y'']
   \<and> (\<exists>ps. distinct ps
        \<and> set ps = {(i, j). i < length (rows ventas_sfx) \<and> j < length (rows clientes_sfx)
                             \<and> (rows ventas_sfx ! i) ''cliente_id'' = (rows clientes_sfx ! j) ''cliente_id''}
        \<and> length (rows merged_sfx) = length ps
        \<and> (\<forall>n < length ps. \<forall>i j. ps ! n = (i, j) \<longrightarrow>
              (rows merged_sfx ! n) ''cliente_id'' = (rows ventas_sfx ! i) ''cliente_id''
            \<and> (rows merged_sfx ! n) ''importe'' = (rows ventas_sfx ! i) ''importe''
            \<and> (rows merged_sfx ! n) ''ciudad_x'' = (rows ventas_sfx ! i) ''ciudad''
            \<and> (rows merged_sfx ! n) ''nombre_cliente'' = (rows clientes_sfx ! j) ''nombre_cliente''
            \<and> (rows merged_sfx ! n) ''ciudad_y'' = (rows clientes_sfx ! j) ''ciudad''))"
proof -
  have h: "merge_df ''cliente_id'' ventas_sfx clientes_sfx = Inr merged_sfx"
    by (simp add: merge_sfx)
  have lc: "columns ventas_sfx = [''cliente_id'', ''importe'', ''ciudad'']"
    and rc: "columns clientes_sfx = [''cliente_id'', ''nombre_cliente'', ''ciudad'']"
    by (simp_all add: ventas_sfx_def clientes_sfx_def)
  from merge_one_row_per_matching_pair [OF h] h show ?thesis
    unfolding lc rc by simp
qed



text \<open>
  Claim C3 fails when every amount of the joined table is missing: the mean is NaN, the
  amounts stay missing and are written so.
\<close>

theorem final_amount_can_be_missing:
  "output_column ''importe'' (run iso_parser env_null) = Some [Null, Null]"
  by (simp add: run_null output_column_def output_null_importe)

text \<open>
  Claim C3, amended. When the joined table has the importe column with at least one amount
  present, every row of the written output has an amount that is a number greater than or
  equal to 0.
\<close>

theorem final_amounts_present_and_nonneg:
  assumes "ventas_csv e = Loaded v" and "clientes_csv e = Loaded c"
    and "merge_df ''cliente_id'' v c = Inr m" and "''importe'' \<in> set (columns m)"
    and "\<exists>x \<in> set (column ''importe'' m). x \<noteq> Null" and "run P e = Written out"
  shows "\<forall>r \<in> set (rows out). \<exists>x. r ''importe'' = Num x \<and> 0 \<le> x"
proof
  fix r assume r: "r \<in> set (rows out)"
  from assms(1,2,3,6) have "clean P (today e) m = Inr out"
    by (auto simp: run_Written_iff)
  then obtain t1 where t1: "importe_stage m = Inr t1"
      and out: "out = fecha_stage P (today e) (nombre_stage t1)"
    by (auto simp: clean_Inr_iff)
  from fecha_stage_other_cells [OF r [unfolded out]] obtain r1
    where r1: "r1 \<in> set (rows (nombre_stage t1))" "r ''importe'' = r1 ''importe''" by auto
  from nombre_stage_other_cells [OF r1(1)] obtain r2
    where r2: "r2 \<in> set (rows t1)" "r1 ''importe'' = r2 ''importe''" by auto
  from importe_stage_nonneg [OF t1 assms(4,5) r2(1)] r1(2) r2(2)
  show "\<exists>x. r ''importe'' = Num x \<and> 0 \<le> x" by simp
qed

theorem final_amounts_present_and_nonneg_witness:
  "column ''importe'' merged_ex = [Num (- 5), Null, Null]
   \<and> output_column ''importe'' (run iso_parser env_ex) = Some [Num 0, Num 0]
   \<and> (\<exists>out. run iso_parser env_ex = Written out
         \<and> (\<forall>r \<in> set (rows out). \<exists>x. r ''importe'' = Num x \<and> 0 \<le> x))"
proof -
  obtain out where out: "run iso_parser env_ex = Written out" using run_ex_written by blast
  have c: "''importe'' \<in> set (columns merged_ex)" by (simp add: merged_ex_columns)
  have x: "\<exists>x \<in> set (column ''importe'' merged_ex). x \<noteq> Null" by (simp add: merged_ex_importe)
  have "\<forall>r \<in> set (rows out). \<exists>x. r ''importe'' = Num x \<and> 0 \<le> x"
    by (rule final_amounts_present_and_nonneg [OF _ _ merge_ex c x out]) (simp_all add: env_ex_def)
  with out have "\<exists>out. run iso_parser env_ex = Written out
         \<and> (\<forall>r \<in> set (rows out). \<exists>x. r ''importe'' = Num x \<and> 0 \<le> x)" by blast
  with merged_ex_importe output_ex_importe show ?thesis by blast
qed

text \<open>
  Claim C4. In a table that has the nombre_cliente column, the repair replaces every missing
  name by the text Desconocido and leaves every other name as it is, row by row. So in the
  written output of a run whose joined table has the column, no name is missing: the name of
  every output row is the name of a joined row, or Desconocido where that name was missing.
\<close>

theorem missing_names_become_desconocido:
  assumes "''nombre_cliente'' \<in> set (columns t)"
  shows "(\<forall>t'. quality_repair t = Inr t' \<longrightarrow>
            length (rows t') = length (rows t)
          \<and> (\<forall>i < length (rows t). (rows t' ! i) ''nombre_cliente'' =
                 (if (rows t ! i) ''nombre_cliente'' = Null then Str ''Desconocido''
                  else (rows t ! i) ''nombre_cliente'')))
       \<and> (\<forall>e v c out. ventas_csv e = Loaded v \<and> clientes_csv e = Loaded c
              \<and> merge_df ''cliente_id'' v c = Inr t \<and> run P e = Written out \<longrightarrow>
            (\<forall>r \<in> set (rows out). r ''nombre_cliente'' \<noteq> Null
               \<and> (\<exists>r0 \<in> set (rows t). r ''nombre_cliente'' =
                     (if r0 ''nombre_cliente'' = Null then Str ''Desconocido''
                      else r0 ''nombre_cliente''))))"
proof -
  let ?n = "''nombre_cliente''"
  have stage: "length (rows t') = length (rows t)
          \<and> (\<forall>i < length (rows t). (rows t' ! i) ?n =
                 (if (rows t ! i) ?n = Null then Str ''Desconocido'' else (rows t ! i) ?n))"
    if q: "quality_repair t = Inr t'" for t'
  proof -
    from q obtain t1 where t1: "importe_stage t = Inr t1" and t': "t' = nombre_stage t1"
      by (auto simp: quality_repair_def split: sum.splits)
    from importe_stage_map [OF t1] obtain g
      where g: "rows t1 = map g (rows t)" "\<forall>r c. c \<noteq> ''importe'' \<longrightarrow> g r c = r c" by blast
    have n1: "?n \<in> set (columns t1)" using assms by (simp only: importe_stage_columns [OF t1])
    have rs: "rows t' = map (\<lambda>r. if r ?n = Null then r(?n := Str ''Desconocido'') else r) (rows t1)"
      unfolding t' using n1 by (simp add: nombre_stage_rows)
    have gn: "g r ?n = r ?n" for r using g(2) by simp
    show ?thesis by (simp add: rs g(1) gn)
  qed
  have final: "r ?n \<noteq> Null \<and> (\<exists>r0 \<in> set (rows t). r ?n =
                     (if r0 ?n = Null then Str ''Desconocido'' else r0 ?n))"
    if h: "ventas_csv e = Loaded v" "clientes_csv e = Loaded c"
      "merge_df ''cliente_id'' v c = Inr t" "run P e = Written out" and r: "r \<in> set (rows out)"
    for e v c out r
  proof -
    from h have "clean P (today e) t = Inr out" by (auto simp: run_Written_iff)
    then obtain t1 where t1: "importe_stage t = Inr t1"
        and out: "out = fecha_stage P (today e) (nombre_stage t1)"
      by (auto simp: clean_Inr_iff)
    have n1: "?n \<in> set (columns t1)" using assms by (simp only: importe_stage_columns [OF t1])
    from fecha_stage_other_cells [OF r [unfolded out]] obtain r1
      where r1: "r1 \<in> set (rows (nombre_stage t1))" "r ?n = r1 ?n" by auto
    from nombre_stage_other_cells [OF r1(1)] n1 obtain r2
      where r2: "r2 \<in> set (rows t1)"
        "r1 ?n = (if r2 ?n = Null then Str ''Desconocido'' else r2 ?n)" by auto
    from importe_stage_other_cells [OF t1 r2(1)] obtain r0
      where r0: "r0 \<in> set (rows t)" "r2 ?n = r0 ?n" by auto
    have "r ?n = (if r0 ?n = Null then Str ''Desconocido'' else r0 ?n)"
      using r1(2) r2(2) r0(2) by simp
    with r0(1) show ?thesis by auto
  qed
  from stage final show ?thesis by blast
qed

theorem missing_names_become_desconocido_witness:
  "column ''nombre_cliente'' merged_ex = [Null, Str ''Ana'', Str ''Ana Maria'']
   \<and> (\<exists>t'. quality_repair merged_ex = Inr t'
         \<and> (rows t' ! 0) ''nombre_cliente'' = Str ''Desconocido''
         \<and> (rows t' ! 1) ''nombre_cliente'' = Str ''Ana'')
   \<and> output_column ''nombre_cliente'' (run iso_parser env_ex) = Some [Str ''Ana'', Str ''Ana Maria'']
   \<and> (\<exists>out. run iso_parser env_ex = Written out
         \<and> (\<forall>r \<in> set (rows out). r ''nombre_cliente'' \<noteq> Null))"
proof -
  have c: "''nombre_cliente'' \<in> set (columns merged_ex)" by (simp add: merged_ex_columns)
  note th = missing_names_become_desconocido [OF c, of iso_parser]
  obtain t1 where "importe_stage merged_ex = Inr t1" by (rule run_ex_steps)
  then have q: "quality_repair merged_ex = Inr (nombre_stage t1)"
    by (simp add: quality_repair_def)
  have len: "length (rows merged_ex) = 3"
    using arg_cong [OF merged_ex_nombre, of length] by (simp add: column_def)
  have cells: "(rows merged_ex ! 0) ''nombre_cliente'' = Null"
    "(rows merged_ex ! Suc 0) ''nombre_cliente'' = Str ''Ana''"
    using arg_cong [OF merged_ex_nombre, of "\<lambda>l. l ! 0"] arg_cong [OF merged_ex_nombre, of "\<lambda>l. l ! 1"] len
    by (simp_all add: column_def)
  from th q have s: "\<forall>i < length (rows merged_ex). (rows (nombre_stage t1) ! i) ''nombre_cliente'' =
                 (if (rows merged_ex ! i) ''nombre_cliente'' = Null then Str ''Desconocido''
                  else (rows merged_ex ! i) ''nombre_cliente'')"
    by blast
  have a: "(rows (nombre_stage t1) ! 0) ''nombre_cliente'' = Str ''Desconocido''"
    "(rows (nombre_stage t1) ! 1) ''nombre_cliente'' = Str ''Ana''"
    using s [rule_format, of 0] s [rule_format, of "Suc 0"] by (simp_all add: len cells)
  obtain out where out: "run iso_parser env_ex = Written out" using run_ex_written by blast
  have e: "ventas_csv env_ex = Loaded ventas_ex" "clientes_csv env_ex = Loaded clientes_ex"
    by (simp_all add: env_ex_def)
  from th e merge_ex out have "\<forall>r \<in> set (rows out). r ''nombre_cliente'' \<noteq> Null"
    by blast
  with out have o: "\<exists>out. run iso_parser env_ex = Written out
         \<and> (\<forall>r \<in> set (rows out). r ''nombre_cliente'' \<noteq> Null)" by blast
  from q a have p: "\<exists>t'. quality_repair merged_ex = Inr t'
         \<and> (rows t' ! 0) ''nombre_cliente'' = Str ''Desconocido''
         \<and> (rows t' ! 1) ''nombre_cliente'' = Str ''Ana''" by blast
  from merged_ex_nombre p output_ex_nombre o show ?thesis by blast
qed




text \<open>
  Claim C6. When the repair of importe and nombre_cliente succeeds, the frame has the same
  columns and the same number of rows in the same order, and in every row every cell of a
  column other than importe and nombre_cliente is what it was.
\<close>

theorem quality_repair_touches_two_columns_only:
  assumes "quality_repair t = Inr t'"
  shows "columns t' = columns t \<and> length (rows t') = length (rows t)
       \<and> (\<forall>i < length (rows t). \<forall>c. c \<noteq> ''importe'' \<and> c \<noteq> ''nombre_cliente'' \<longrightarrow>
             (rows t' ! i) c = (rows t ! i) c)"
proof -
  from assms obtain t1 where t1: "importe_stage t = Inr t1" and t': "t' = nombre_stage t1"
    by (auto simp: quality_repair_def split: sum.splits)
  from importe_stage_map [OF t1] obtain g
    where g: "rows t1 = map g (rows t)" "\<forall>r c. c \<noteq> ''importe'' \<longrightarrow> g r c = r c" by blast
  from nombre_stage_map [of t1] obtain h
    where h: "rows t' = map h (rows t1)" "\<forall>r c. c \<noteq> ''nombre_cliente'' \<longrightarrow> h r c = r c"
    unfolding t' by blast
  have cols: "columns t' = columns t"
    unfolding t' by (simp only: nombre_stage_columns importe_stage_columns [OF t1])
  have len: "length (rows t') = length (rows t)" by (simp add: g(1) h(1))
  have cells: "\<forall>i < length (rows t). \<forall>c. c \<noteq> ''importe'' \<and> c \<noteq> ''nombre_cliente'' \<longrightarrow>
             (rows t' ! i) c = (rows t ! i) c"
    using g(2) h(2) by (simp add: g(1) h(1))
  from cols len cells show ?thesis by blast
qed

theorem quality_repair_touches_two_columns_only_witness:
  "\<exists>t'. quality_repair merged_ex = Inr t' \<and> columns t' = columns merged_ex
      \<and> length (rows t') = length (rows merged_ex)
      \<and> (rows t' ! 0) ''fecha_venta'' = (rows merged_ex ! 0) ''fecha_venta''"
proof -
  have "\<forall>v \<in> set (column ''importe'' merged_ex). is_number_or_null v"
    by (simp add: merged_ex_importe is_number_or_null_def)
  from importe_stage_ok [OF this] obtain t1 where "importe_stage merged_ex = Inr t1" ..
  then have q: "quality_repair merged_ex = Inr (nombre_stage t1)"
    by (simp add: quality_repair_def)
  have "0 < length (rows merged_ex)"
    using arg_cong [OF merged_ex_importe, of length] by (simp add: column_def)
  with quality_repair_touches_two_columns_only [OF q] q show ?thesis by auto
qed




text \<open>
  Claim C8. Let the reader of dates read every canonical text YYYY-MM-DD of a calendar date
  as that date. Then parsing and formatting such a text gives the same text again; a table
  whose dates all are canonical texts within the range is left as it is by the date stage;
  and if the reader gives calendar dates only, running the date stage on its own output
  changes nothing.
\<close>

theorem canonical_dates_are_fixed:
  assumes "\<forall>s d. parse_date s = Some d \<longrightarrow> P (Str s) = Some d"
  shows "(\<forall>s d. parse_date s = Some d \<longrightarrow> strftime_cell (to_datetime P (Str s)) = Str s)
       \<and> (''fecha_venta'' \<in> set (columns t)
            \<and> (\<forall>r \<in> set (rows t). \<exists>s d. r ''fecha_venta'' = Str s \<and> parse_date s = Some d
                   \<and> ts_le min_date d \<and> ts_le d now)
          \<longrightarrow> fecha_stage P now t = t)
       \<and> (''fecha_venta'' \<in> set (columns t) \<and> (\<forall>v ts. P v = Some ts \<longrightarrow> valid_ts ts)
          \<longrightarrow> fecha_stage P now (fecha_stage P now t) = fecha_stage P now t)"
proof -
  have a: "strftime_cell (to_datetime P (Str s)) = Str s" if p: "parse_date s = Some d" for s d
  proof -
    from assms p have "P (Str s) = Some d" by blast
    moreover have "strftime d = s" using strftime_parse_date [OF p] by simp
    ultimately show ?thesis by (simp add: to_datetime_def strftime_cell_def)
  qed
  have b: "fecha_stage P now' u = u"
    if "''fecha_venta'' \<in> set (columns u)"
      "\<forall>r \<in> set (rows u). \<exists>s d. r ''fecha_venta'' = Str s \<and> parse_date s = Some d
                   \<and> ts_le min_date d \<and> ts_le d now'" for u now'
    using that(1) assms that(2) by (rule fecha_stage_canonical)
  have c: "fecha_stage P now (fecha_stage P now t) = fecha_stage P now t"
    if f: "''fecha_venta'' \<in> set (columns t)" and v: "\<forall>v ts. P v = Some ts \<longrightarrow> valid_ts ts"
  proof (rule b)
    show "''fecha_venta'' \<in> set (columns (fecha_stage P now t))"
      using f by (simp only: fecha_stage_columns)
    show "\<forall>r \<in> set (rows (fecha_stage P now t)). \<exists>s d. r ''fecha_venta'' = Str s
            \<and> parse_date s = Some d \<and> ts_le min_date d \<and> ts_le d now"
    proof
      fix r assume "r \<in> set (rows (fecha_stage P now t))"
      from fecha_stage_cells [OF f v this] obtain d
        where d: "r ''fecha_venta'' = Str (strftime d)" "valid_ts d" "ts_le min_date d" "ts_le d now"
        by blast
      from d(1) parse_date_strftime [OF d(2)] ts_le_min_date_midnight [OF d(3)]
        ts_le_midnight(1) [OF d(4)]
      show "\<exists>s d. r ''fecha_venta'' = Str s \<and> parse_date s = Some d
              \<and> ts_le min_date d \<and> ts_le d now" by blast
    qed
  qed
  from a b [of t now] c show ?thesis by blast
qed

theorem canonical_dates_are_fixed_witness:
  "column ''fecha_venta'' canon_ex = [Str ''2021-05-01'', Str ''2026-11-04'']
   \<and> strftime_cell (to_datetime iso_parser (Str ''2021-05-01'')) = Str ''2021-05-01''
   \<and> fecha_stage iso_parser now_ex canon_ex = canon_ex
   \<and> fecha_stage iso_parser now_ex (fecha_stage iso_parser now_ex dates_ex)
       = fecha_stage iso_parser now_ex dates_ex"
proof -
  have p: "\<forall>s d. parse_date s = Some d \<longrightarrow> iso_parser (Str s) = Some d"
    using iso_parser_canonical by blast
  have v: "\<forall>v ts. iso_parser v = Some ts \<longrightarrow> valid_ts ts" using iso_parser_valid by blast
  have col: "column ''fecha_venta'' canon_ex = [Str ''2021-05-01'', Str ''2026-11-04'']"
    by (simp add: column_def canon_ex_def mk_row_def)
  have f: "''fecha_venta'' \<in> set (columns canon_ex)" "''fecha_venta'' \<in> set (columns dates_ex)"
    by (simp_all add: canon_ex_def dates_ex_def)
  have r1: "ts_le min_date \<lparr>year = 2021, month = 5, day = 1, tod = 0\<rparr>"
    "ts_le \<lparr>year = 2021, month = 5, day = 1, tod = 0\<rparr> now_ex"
    "ts_le min_date \<lparr>year = 2026, month = 11, day = 4, tod = 0\<rparr>"
    "ts_le \<lparr>year = 2026, month = 11, day = 4, tod = 0\<rparr> now_ex"
    by (simp_all add: ts_le_def min_date_def now_ex_def)
  have rws: "\<forall>r \<in> set (rows canon_ex). \<exists>s d. r ''fecha_venta'' = Str s \<and> parse_date s = Some d
                   \<and> ts_le min_date d \<and> ts_le d now_ex"
  proof -
    have "\<forall>x \<in> set (column ''fecha_venta'' canon_ex). \<exists>s d. x = Str s \<and> parse_date s = Some d
                   \<and> ts_le min_date d \<and> ts_le d now_ex"
      unfolding col using parse_date_examples parse_date_example r1 by simp
    then show ?thesis by (simp add: column_def)
  qed
  from canonical_dates_are_fixed [OF p, of canon_ex now_ex] f(1) rws parse_date_examples
  have a: "strftime_cell (to_datetime iso_parser (Str ''2021-05-01'')) = Str ''2021-05-01''"
    and b: "fecha_stage iso_parser now_ex canon_ex = canon_ex"
    by blast+
  from canonical_dates_are_fixed [OF p, of dates_ex now_ex] f(2) v
  have c: "fecha_stage iso_parser now_ex (fecha_stage iso_parser now_ex dates_ex)
       = fecha_stage iso_parser now_ex dates_ex"
    by blast
  from col a b c show ?thesis by blast
qed

text \<open>
  Claim C9. When the joined table has the importe column and every amount in it is missing,
  the mean of the column is NaN, the importe stage leaves the table as it is (nothing is
  filled with 0 and nothing is raised), and the run, if the write succeeds, writes the rows
  that survive the date stage, every one of them with a missing amount.
\<close>

theorem all_amounts_missing_stay_missing:
  assumes "ventas_csv e = Loaded v" and "clientes_csv e = Loaded c"
    and "merge_df ''cliente_id'' v c = Inr m" and "''importe'' \<in> set (columns m)"
    and "\<forall>x \<in> set (column ''importe'' m). x = Null" and "write_ok e"
  shows "mean (column ''importe'' m) = Null
       \<and> importe_stage m = Inr m
       \<and> run P e = Written (fecha_stage P (today e) (nombre_stage m))
       \<and> (\<forall>x \<in> set (column ''importe'' (fecha_stage P (today e) (nombre_stage m))). x = Null)"
proof -
  have mn: "mean (column ''importe'' m) = Null"
    using assms(5) by (simp add: mean_def numbers_all_null)
  have st: "importe_stage m = Inr m" using assms(5) by (rule importe_stage_all_null)
  then have "clean P (today e) m = Inr (fecha_stage P (today e) (nombre_stage m))"
    by (simp add: clean_Inr_iff)
  then have rn: "run P e = Written (fecha_stage P (today e) (nombre_stage m))"
    using assms(1,2,3,6) by (simp add: run_Written_iff)
  have "x = Null" if "x \<in> set (column ''importe'' (fecha_stage P (today e) (nombre_stage m)))" for x
  proof -
    from that obtain r' where r': "r' \<in> set (rows (fecha_stage P (today e) (nombre_stage m)))"
        and x: "x = r' ''importe''" by (auto simp: column_def)
    from fecha_stage_other_cells [OF r'] obtain r1
      where r1: "r1 \<in> set (rows (nombre_stage m))" "r' ''importe'' = r1 ''importe''" by auto
    from nombre_stage_other_cells [OF r1(1)] obtain r0
      where r0: "r0 \<in> set (rows m)" "r1 ''importe'' = r0 ''importe''" by auto
    from r0(1) have "r0 ''importe'' \<in> set (column ''importe'' m)" by (simp add: column_def)
    with assms(5) have "r0 ''importe'' = Null" by blast
    with x r1(2) r0(2) show ?thesis by simp
  qed
  with mn st rn show ?thesis by blast
qed

theorem all_amounts_missing_stay_missing_witness:
  "column ''importe'' merged_null = [Null, Null]
   \<and> run iso_parser env_null = Written (fecha_stage iso_parser now_ex (nombre_stage merged_null))
   \<and> importe_stage merged_null = Inr merged_null
   \<and> output_column ''importe'' (run iso_parser env_null) = Some [Null, Null]"
proof -
  have c: "''importe'' \<in> set (columns merged_null)" by (simp add: merged_null_columns)
  have n: "\<forall>x \<in> set (column ''importe'' merged_null). x = Null" by (simp add: merged_null_importe)
  have f: "''fecha_venta'' \<in> set (columns (nombre_stage merged_null))"
    by (simp add: nombre_stage_columns merged_null_columns)
  have col: "column ''importe'' (fecha_stage iso_parser now_ex (nombre_stage merged_null)) = [Null, Null]"
    by (simp add: fecha_stage_column_other [OF f] nombre_stage_column_other merged_null_importe
          merged_null_fecha to_datetime_def iso_parser_examples in_range_examples
          del: One_nat_def)
  from all_amounts_missing_stay_missing [of env_null ventas_null clientes_ex merged_null iso_parser,
      OF _ _ merge_null c n]
  have "run iso_parser env_null = Written (fecha_stage iso_parser now_ex (nombre_stage merged_null))
      \<and> importe_stage merged_null = Inr merged_null"
    by (simp add: env_null_def)
  then show ?thesis by (simp add: merged_null_importe output_column_def col)
qed

text \<open>
  Claim C10. A stage whose column is not in the table does nothing and raises nothing: the
  importe stage, the nombre_cliente stage and the fecha_venta stage each return the table
  as it is. In a run whose merge succeeded and whose write succeeds, the merged table
  lacking importe gives a written output, namely the table after the other two stages;
  lacking nombre_cliente or fecha_venta, the output is written after the remaining stages
  whenever the importe stage raises nothing.
\<close>

theorem absent_column_skips_stage:
  "(''importe'' \<notin> set (columns t) \<longrightarrow> importe_stage t = Inr t)
 \<and> (''nombre_cliente'' \<notin> set (columns t) \<longrightarrow> nombre_stage t = t)
 \<and> (''fecha_venta'' \<notin> set (columns t) \<longrightarrow> fecha_stage P now t = t)
 \<and> (ventas_csv e = Loaded v \<and> clientes_csv e = Loaded c \<and> merge_df ''cliente_id'' v c = Inr t
      \<and> write_ok e \<longrightarrow>
        (''importe'' \<notin> set (columns t) \<longrightarrow>
            run P e = Written (fecha_stage P (today e) (nombre_stage t)))
      \<and> (''nombre_cliente'' \<notin> set (columns t) \<longrightarrow>
            (\<forall>t1. importe_stage t = Inr t1 \<longrightarrow> run P e = Written (fecha_stage P (today e) t1)))
      \<and> (''fecha_venta'' \<notin> set (columns t) \<longrightarrow>
            (\<forall>t1. importe_stage t = Inr t1 \<longrightarrow> run P e = Written (nombre_stage t1))))"
proof -
  have a: "importe_stage t = Inr t" if "''importe'' \<notin> set (columns t)"
    using that by (rule importe_stage_absent)
  have b: "nombre_stage u = u" if "''nombre_cliente'' \<notin> set (columns u)" for u
    using that by (simp add: nombre_stage_def)
  have c: "fecha_stage P d u = u" if "''fecha_venta'' \<notin> set (columns u)" for u d
    using that by (simp add: fecha_stage_def)
  have r: "run P e = Written (fecha_stage P (today e) (nombre_stage t1))"
    if "ventas_csv e = Loaded v" "clientes_csv e = Loaded c" "merge_df ''cliente_id'' v c = Inr t"
      "write_ok e" "importe_stage t = Inr t1" for t1
    using that by (simp add: run_Written_iff clean_Inr_iff)
  have r1: "run P e = Written (fecha_stage P (today e) (nombre_stage t))"
    if "ventas_csv e = Loaded v" "clientes_csv e = Loaded c" "merge_df ''cliente_id'' v c = Inr t"
      "write_ok e" "''importe'' \<notin> set (columns t)"
    using r [OF that(1-4) a [OF that(5)]] .
  have r2: "run P e = Written (fecha_stage P (today e) t1)"
    if "ventas_csv e = Loaded v" "clientes_csv e = Loaded c" "merge_df ''cliente_id'' v c = Inr t"
      "write_ok e" "''nombre_cliente'' \<notin> set (columns t)" "importe_stage t = Inr t1" for t1
  proof -
    have "''nombre_cliente'' \<notin> set (columns t1)"
      using that(5) by (simp only: importe_stage_columns [OF that(6)] not_False_eq_True)
    then have "nombre_stage t1 = t1" by (rule b)
    with r [OF that(1-4) that(6)] show ?thesis by simp
  qed
  have r3: "run P e = Written (nombre_stage t1)"
    if "ventas_csv e = Loaded v" "clientes_csv e = Loaded c" "merge_df ''cliente_id'' v c = Inr t"
      "write_ok e" "''fecha_venta'' \<notin> set (columns t)" "importe_stage t = Inr t1" for t1
  proof -
    have "''fecha_venta'' \<notin> set (columns (nombre_stage t1))"
      using that(5) by (simp only: nombre_stage_columns importe_stage_columns [OF that(6)] not_False_eq_True)
    then have "fecha_stage P (today e) (nombre_stage t1) = nombre_stage t1" by (rule c)
    with r [OF that(1-4) that(6)] show ?thesis by simp
  qed
  from a b [of t] c [of t now] r1 r2 r3 show ?thesis by blast
qed

theorem absent_column_skips_stage_witness:
  "columns merged_bare = [''cliente_id'', ''producto'', ''ciudad'']
 \<and> importe_stage merged_bare = Inr merged_bare
 \<and> nombre_stage merged_bare = merged_bare
 \<and> fecha_stage iso_parser now_ex merged_bare = merged_bare
 \<and> run iso_parser env_bare = Written merged_bare"
proof -
  have n: "''importe'' \<notin> set (columns merged_bare)" "''nombre_cliente'' \<notin> set (columns merged_bare)"
    "''fecha_venta'' \<notin> set (columns merged_bare)"
    by (simp_all add: merged_bare_columns)
  have e: "ventas_csv env_bare = Loaded ventas_bare" "clientes_csv env_bare = Loaded clientes_bare"
    "write_ok env_bare" "today env_bare = now_ex"
    by (simp_all add: env_bare_def)
  from absent_column_skips_stage [of merged_bare iso_parser now_ex env_bare ventas_bare clientes_bare]
  show ?thesis
    using n e merge_bare merged_bare_columns by simp
qed

end
